theory Spec2Isabelle
  imports Complex_Main "HOL-Library.Sublist" "HOL-Library.Multiset"
begin

section \<open>Python values and their text rendering\<close>

text \<open>
  The values that travel through the pipelines (decoded JSON, index payloads, stored
  chat fields) are Python objects. Numbers are integers here; characters are the code
  points 0..255.
\<close>

datatype pyval = PNone | PBool bool | PInt int | PStr string
  | PList "pyval list" | PDict "(string \<times> pyval) list"

fun show_nat :: "nat \<Rightarrow> string" where
  "show_nat n =
     (if n < 10 then [char_of (48 + n)]
      else show_nat (n div 10) @ [char_of (48 + n mod 10)])"

declare show_nat.simps [simp del]

definition hex_digit :: "nat \<Rightarrow> char" where
  "hex_digit d = (if d < 10 then char_of (48 + d) else char_of (87 + d))"

definition hex_escape :: "char \<Rightarrow> string" where
  "hex_escape c =
     [CHR 0x5C, CHR ''x'', hex_digit ((of_char c :: nat) div 16), hex_digit ((of_char c :: nat) mod 16)]"

text \<open>\<open>str.isprintable\<close> on one code point below 256.\<close>

definition py_isprintable :: "char \<Rightarrow> bool" where
  "py_isprintable c =
     (let n = (of_char c :: nat)
      in 32 \<le> n \<and> n \<noteq> 127 \<and> \<not> (128 \<le> n \<and> n \<le> 160) \<and> n \<noteq> 173)"

text \<open>One character inside \<open>repr\<close> of a string whose quote character is \<open>q\<close>.\<close>

definition repr_char :: "char \<Rightarrow> char \<Rightarrow> string" where
  "repr_char q c =
     (if c = q \<or> c = CHR 0x5C then [CHR 0x5C, c]
      else if c = CHR 0x09 then [CHR 0x5C, CHR ''t'']
      else if c = CHR 0x0A then [CHR 0x5C, CHR ''n'']
      else if c = CHR 0x0D then [CHR 0x5C, CHR ''r'']
      else if py_isprintable c then [c]
      else hex_escape c)"

text \<open>
  \<open>repr\<close> of a string: single quotes, unless the string holds a single quote and no
  double quote.
\<close>

definition repr_str :: "string \<Rightarrow> string" where
  "repr_str s =
     (let q = (if CHR 0x27 \<in> set s \<and> CHR 0x22 \<notin> set s then CHR 0x22 else CHR 0x27)
      in [q] @ concat (map (repr_char q) s) @ [q])"

fun join :: "string \<Rightarrow> string list \<Rightarrow> string" where
  "join sep [] = []"
| "join sep [x] = x"
| "join sep (x # y # ys) = x @ sep @ join sep (y # ys)"

fun py_repr :: "pyval \<Rightarrow> string" where
  "py_repr PNone = ''None''"
| "py_repr (PBool b) = (if b then ''True'' else ''False'')"
| "py_repr (PInt i) = (if i < 0 then ''-'' @ show_nat (nat (- i)) else show_nat (nat i))"
| "py_repr (PStr s) = repr_str s"
| "py_repr (PList xs) = ''['' @ join '', '' (map py_repr xs) @ '']''"
| "py_repr (PDict kvs) =
     ''{'' @ join '', '' (map (\<lambda>kv. repr_str (fst kv) @ '': '' @ py_repr (snd kv)) kvs) @ ''}''"

text \<open>\<open>str(v)\<close>, which is also what an f-string field \<open>{v}\<close> renders.\<close>

fun py_str :: "pyval \<Rightarrow> string" where
  "py_str (PStr s) = s"
| "py_str v = py_repr v"

section \<open>Exceptions\<close>

text \<open>
  Every raise of the source is a value. The text of a wrapping message is kept as
  structure: \<open>InPredictFlow e\<close> is the message \<open>f"Error in predict_flow: {str(e)}"\<close>,
  and so on. Exceptions raised inside external libraries carry their text.
\<close>

datatype exn =
    KeyError | IndexError | TypeError | AttributeError
  | RuntimeError string
  | ExternalError string
  | ImportError
  | RAGAPIError int string string
  | RAGError rag_msg
  | PlainException exc_msg
and rag_msg =
    NetworkErrorMsg string
  | InvalidResponseFormat exn
  | InPredictFlow exn
and exc_msg =
    PdfNeedsLibrary
  | PdfExtractFailed exn
  | DecodeFailed string
  | UnsupportedFile string

section \<open>The world outside the process\<close>

text \<open>
  The services the program talks to are state of the model: the two MongoDB collections,
  the Qdrant collection, and the sequence of calls made to any external service, in the
  order they were made. The sequence lets a property say that a call did not happen, or
  happened before another one.
\<close>

record chat_doc =
  cd_user_id :: string
  cd_session_id :: string
  cd_query :: "pyval option"
  cd_response :: "pyval option"
  cd_timestamp :: int

record upload_doc =
  ud_user_id :: string
  ud_filename :: string
  ud_file_content :: string
  ud_upload_time :: int

type_synonym vector = "real list"

record point =
  pt_id :: string
  pt_vector :: vector
  pt_payload :: "string \<rightharpoonup> pyval"

datatype call =
    MongoFindChats string
  | MongoInsertChat chat_doc
  | MongoInsertDoc upload_doc
  | EmbedQuery string
  | EmbedBatch "string list"
  | QdrantGetCollections
  | QdrantCreateCollection
  | QdrantUpsert nat
  | QdrantSearch nat
  | QdrantGetCollection
  | QdrantScroll
  | LLMChat string
  | ReadUpload

record world =
  docs_collection :: "upload_doc list"
  chat_collection :: "chat_doc list"
  collection_exists :: bool
  qdrant_points :: "point list"
  uuid_calls :: nat
  calls :: "call list"

text \<open>What an HTTP POST to the generation service comes back with.\<close>

datatype http_outcome =
    ConnectionFailed string
  | HttpResponse int string "string + pyval"

text \<open>
  The behaviour of the outside world in one run: which driver calls raise, what the
  remote services answer, what the clock, the UUID generator and the codecs return.
  \<open>raises c = Some e\<close> says that the library call \<open>c\<close> raises \<open>e\<close>.
\<close>

record env =
  raises :: "call \<Rightarrow> exn option"
  utcnow :: int
  embed_text_api :: "string \<Rightarrow> exn + vector"
  embed_texts_api :: "string list \<Rightarrow> exn + vector list"
  score :: "vector \<Rightarrow> vector \<Rightarrow> real"
  uuid4 :: "nat \<Rightarrow> string"
  llm_post :: "string \<Rightarrow> http_outcome"
  split_text :: "string \<Rightarrow> string list"
  decode_utf8 :: "string \<Rightarrow> string option"
  pdf_pages :: "string \<Rightarrow> exn + string list"
  clock :: "nat \<Rightarrow> real"
  fmt3 :: "real \<Rightarrow> string"
  CLIENT_SECRET_KEY :: string

definition record_call :: "call \<Rightarrow> world \<Rightarrow> world" where
  "record_call c w = w\<lparr> calls := calls w @ [c] \<rparr>"

section \<open>Document store (db/mongo\_utils.py)\<close>

text \<open>
  \<open>find({"session_id": sid}).sort("timestamp", -1).limit(3)\<close>. Timestamps are
  milliseconds. The sort is by descending timestamp; turns with equal timestamps stay in
  stored order.
\<close>

definition find_session :: "chat_doc list \<Rightarrow> string \<Rightarrow> chat_doc list" where
  "find_session coll sid = filter (\<lambda>d. cd_session_id d = sid) coll"

definition sort_timestamp_desc :: "chat_doc list \<Rightarrow> chat_doc list" where
  "sort_timestamp_desc ds = sort_key (\<lambda>d. - cd_timestamp d) ds"

definition last_chats :: "chat_doc list \<Rightarrow> string \<Rightarrow> chat_doc list" where
  "last_chats coll sid = take 3 (sort_timestamp_desc (find_session coll sid))"

text \<open>\<open>chat.get(key, '')\<close> rendered in an f-string.\<close>

definition get_or_empty :: "pyval option \<Rightarrow> string" where
  "get_or_empty f = (case f of None \<Rightarrow> [] | Some v \<Rightarrow> py_str v)"

definition query_line :: "chat_doc \<Rightarrow> string" where
  "query_line chat = ''QUERY: '' @ get_or_empty (cd_query chat)"

definition response_line :: "chat_doc \<Rightarrow> string" where
  "response_line chat = ''RESPONSE: '' @ get_or_empty (cd_response chat)"

text \<open>The formatting loop, appending two lines per chat to \<open>formatted_history\<close>.\<close>

fun format_chats :: "chat_doc list \<Rightarrow> string list \<Rightarrow> string list" where
  "format_chats [] formatted_history = formatted_history"
| "format_chats (chat # chats) formatted_history =
     format_chats chats (formatted_history @ [query_line chat, response_line chat])"

definition get_chat_history :: "env \<Rightarrow> world \<Rightarrow> string \<Rightarrow> (exn + string list) \<times> world" where
  "get_chat_history ev w session_id =
     (let w1 = record_call (MongoFindChats session_id) w
      in case raises ev (MongoFindChats session_id) of
           Some e \<Rightarrow> (Inl e, w1)
         | None \<Rightarrow>
             (let chats = rev (last_chats (chat_collection w) session_id)
              in (Inr (format_chats chats []), w1)))"

definition save_chat_session ::
  "env \<Rightarrow> world \<Rightarrow> string \<Rightarrow> string \<Rightarrow> pyval \<Rightarrow> pyval \<Rightarrow> (exn + string) \<times> world" where
  "save_chat_session ev w user_id session_id query response =
     (let doc = \<lparr> cd_user_id = user_id, cd_session_id = session_id,
                  cd_query = Some query, cd_response = Some response,
                  cd_timestamp = utcnow ev \<rparr>;
          w1 = record_call (MongoInsertChat doc) w
      in case raises ev (MongoInsertChat doc) of
           Some e \<Rightarrow> (Inl e, w1)
         | None \<Rightarrow> (Inr user_id, w1\<lparr> chat_collection := chat_collection w @ [doc] \<rparr>))"

definition save_uploaded_document ::
  "env \<Rightarrow> world \<Rightarrow> string \<Rightarrow> string \<Rightarrow> string \<Rightarrow> (exn + unit) \<times> world" where
  "save_uploaded_document ev w user_id filename file_content =
     (let doc = \<lparr> ud_user_id = user_id, ud_filename = filename,
                  ud_file_content = file_content, ud_upload_time = utcnow ev \<rparr>;
          w1 = record_call (MongoInsertDoc doc) w
      in case raises ev (MongoInsertDoc doc) of
           Some e \<Rightarrow> (Inl e, w1)
         | None \<Rightarrow> (Inr (), w1\<lparr> docs_collection := docs_collection w @ [doc] \<rparr>))"

section \<open>Embedding client (services/embedding\_client.py)\<close>

text \<open>
  The HTTP exchange with the embedding service, its status check and the decoding of the
  vectors are one outcome of the environment; the client's own shortcut for an empty
  batch, which makes no request, is kept.
\<close>

definition embed_text :: "env \<Rightarrow> world \<Rightarrow> string \<Rightarrow> (exn + vector) \<times> world" where
  "embed_text ev w text = (embed_text_api ev text, record_call (EmbedQuery text) w)"

definition embed_texts :: "env \<Rightarrow> world \<Rightarrow> string list \<Rightarrow> (exn + vector list) \<times> world" where
  "embed_texts ev w texts =
     (if texts = [] then (Inr [], w)
      else (embed_texts_api ev texts, record_call (EmbedBatch texts) w))"

section \<open>Retrieval service (services/retriever.py)\<close>

text \<open>
  The Qdrant collection is a list of points. \<open>upsert\<close> replaces the point that has the
  same id or appends; \<open>search\<close> ranks all points by their score against the query vector,
  best first, and returns the first \<open>limit\<close> of them. The similarity measure of the
  index is \<open>score\<close> of the environment, and the payload of a stored point is a
  dictionary.
\<close>

fun upsert_point :: "point \<Rightarrow> point list \<Rightarrow> point list" where
  "upsert_point p [] = [p]"
| "upsert_point p (x # xs) = (if pt_id x = pt_id p then p # xs else x # upsert_point p xs)"

definition upsert :: "point list \<Rightarrow> point list \<Rightarrow> point list" where
  "upsert stored points = foldl (\<lambda>acc p. upsert_point p acc) stored points"

definition search :: "env \<Rightarrow> point list \<Rightarrow> vector \<Rightarrow> nat \<Rightarrow> point list" where
  "search ev stored query_vector limit =
     take limit (sort_key (\<lambda>p. - score ev query_vector (pt_vector p)) stored)"

text \<open>
  The loop \<open>for i, embedding in enumerate(embeddings)\<close> of \<open>store_chunks\<close>. \<open>texts[i]\<close>
  raises IndexError past the end of \<open>texts\<close>; the UUID generator is called once per
  point, \<open>c\<close> counts its calls.
\<close>

fun make_points ::
  "env \<Rightarrow> string list \<Rightarrow> (string \<rightharpoonup> pyval) list \<Rightarrow> nat \<Rightarrow> nat \<Rightarrow> vector list \<Rightarrow> point list
     \<Rightarrow> (exn + point list) \<times> nat" where
  "make_points ev texts metadatas i c [] points = (Inr points, c)"
| "make_points ev texts metadatas i c (embedding # rest) points =
     (if i < length texts then
        (let base_payload = [''text'' \<mapsto> PStr (texts ! i)];
             extra = (if metadatas \<noteq> [] \<and> i < length metadatas then metadatas ! i else Map.empty);
             payload = base_payload ++ extra;
             point_id = uuid4 ev c
         in make_points ev texts metadatas (i + 1) (c + 1) rest
              (points @ [\<lparr> pt_id = point_id, pt_vector = embedding, pt_payload = payload \<rparr>]))
      else (Inl IndexError, c))"

definition store_chunks ::
  "env \<Rightarrow> world \<Rightarrow> string list \<Rightarrow> (string \<rightharpoonup> pyval) list \<Rightarrow> (exn + unit) \<times> world" where
  "store_chunks ev w texts metadatas =
     (case embed_texts ev w texts of
        (Inl e, w1) \<Rightarrow> (Inl e, w1)
      | (Inr embeddings, w1) \<Rightarrow>
          (case make_points ev texts metadatas 0 (uuid_calls w1) embeddings [] of
             (Inl e, c) \<Rightarrow> (Inl e, w1\<lparr> uuid_calls := c \<rparr>)
           | (Inr points, c) \<Rightarrow>
               (let w2 = record_call (QdrantUpsert (length points)) (w1\<lparr> uuid_calls := c \<rparr>)
                in case raises ev (QdrantUpsert (length points)) of
                     Some e \<Rightarrow> (Inl e, w2)
                   | None \<Rightarrow>
                       (let w3 = record_call QdrantGetCollection
                                   (w2\<lparr> qdrant_points := upsert (qdrant_points w2) points \<rparr>)
                        in case raises ev QdrantGetCollection of
                             Some e \<Rightarrow> (Inl e, w3)
                           | None \<Rightarrow> (Inr (), w3)))))"

text \<open>\<open>hit.payload.get("text", "")\<close>\<close>

definition hit_text :: "point \<Rightarrow> pyval" where
  "hit_text hit = (case pt_payload hit ''text'' of None \<Rightarrow> PStr [] | Some v \<Rightarrow> v)"

definition retrieve_similar_chunks ::
  "env \<Rightarrow> world \<Rightarrow> string \<Rightarrow> nat \<Rightarrow> (exn + pyval list) \<times> world" where
  "retrieve_similar_chunks ev w query k =
     (case embed_text ev w query of
        (Inl e, w1) \<Rightarrow> (Inl e, w1)
      | (Inr query_vector, w1) \<Rightarrow>
          (let w2 = record_call (QdrantSearch k) w1
           in case raises ev (QdrantSearch k) of
                Some e \<Rightarrow> (Inl e, w2)
              | None \<Rightarrow>
                  (let search_results = search ev (qdrant_points w) query_vector k;
                       w3 = record_call QdrantGetCollection w2
                   in case raises ev QdrantGetCollection of
                        Some e \<Rightarrow> (Inl e, w3)
                      | None \<Rightarrow>
                          (let w4 = record_call QdrantScroll w3
                           in case raises ev QdrantScroll of
                                Some e \<Rightarrow> (Inl e, w4)
                              | None \<Rightarrow> (Inr (map hit_text search_results), w4)))))"

section \<open>Chunker and metadata (components/)\<close>

text \<open>
  \<open>Chunker.chunk_text\<close> hands the text to the text-splitter library with chunk size 500,
  overlap 100 and the separator list; the library's result is \<open>split_text\<close> of the
  environment.
\<close>

definition chunk_text :: "env \<Rightarrow> string \<Rightarrow> string list" where
  "chunk_text ev text = split_text ev text"

definition get_metadata :: "string \<Rightarrow> string \<Rightarrow> string \<Rightarrow> (string \<rightharpoonup> pyval)" where
  "get_metadata text source user_id = [''source'' \<mapsto> PStr source, ''user_id'' \<mapsto> PStr user_id]"

definition get_metadata_list :: "string list \<Rightarrow> string \<Rightarrow> string \<Rightarrow> (string \<rightharpoonup> pyval) list" where
  "get_metadata_list texts source user_id = map (\<lambda>text. get_metadata text source user_id) texts"

section \<open>Ingestion pipeline (routers/train\_router.py)\<close>

text \<open>An uploaded file: its name and its bytes, a byte being a character code.\<close>

record upload_file =
  uf_filename :: string
  uf_content :: string

definition py_lower_char :: "char \<Rightarrow> char" where
  "py_lower_char c =
     (let n = (of_char c :: nat)
      in if (65 \<le> n \<and> n \<le> 90) \<or> (192 \<le> n \<and> n \<le> 222 \<and> n \<noteq> 215) then char_of (n + 32) else c)"

definition py_isspace :: "char \<Rightarrow> bool" where
  "py_isspace c =
     (let n = (of_char c :: nat)
      in (9 \<le> n \<and> n \<le> 13) \<or> (28 \<le> n \<and> n \<le> 32) \<or> n = 133 \<or> n = 160)"

definition py_strip :: "string \<Rightarrow> string" where
  "py_strip s = rev (dropWhile py_isspace (rev (dropWhile py_isspace s)))"

text \<open>\<open>filename.lower().split('.')[-1] if '.' in filename else ''\<close>\<close>

definition file_extension :: "string \<Rightarrow> string" where
  "file_extension filename =
     (if CHR ''.'' \<in> set filename
      then rev (takeWhile (\<lambda>c. c \<noteq> CHR ''.'') (rev (map py_lower_char filename)))
      else [])"

definition extract_text_from_pdf :: "env \<Rightarrow> string \<Rightarrow> exn + string" where
  "extract_text_from_pdf ev file_content =
     (case pdf_pages ev file_content of
        Inl ImportError \<Rightarrow> Inl (PlainException PdfNeedsLibrary)
      | Inl e \<Rightarrow> Inl (PlainException (PdfExtractFailed e))
      | Inr pages \<Rightarrow> Inr (py_strip (concat (map (\<lambda>page. page @ [CHR 0x0A]) pages))))"

definition extract_text_from_file :: "env \<Rightarrow> string \<Rightarrow> string \<Rightarrow> exn + string" where
  "extract_text_from_file ev file_content filename =
     (let ext = file_extension filename
      in if ext = ''pdf'' then extract_text_from_pdf ev file_content
         else if ext \<in> set [''txt'', ''md'', ''json'', ''csv''] then
           (case decode_utf8 ev file_content of
              Some text \<Rightarrow> Inr text
            | None \<Rightarrow> Inr file_content)
         else
           (case decode_utf8 ev file_content of
              Some text \<Rightarrow> Inr text
            | None \<Rightarrow> Inl (PlainException (UnsupportedFile filename))))"

text \<open>
  The result dictionaries of \<open>train\<close>. The \<open>message\<close> of a failure is a literal or
  \<open>str(e)\<close> of the exception caught; the timing strings of a success are left out.
\<close>

datatype msg_text = Literal string | StrOfExn exn

record train_failure =
  tf_error :: string
  tf_message :: msg_text
  tf_user_id :: string
  tf_filename :: string
  tf_status :: string

record train_success =
  ts_user_id :: string
  ts_filename :: string
  ts_total_chunks :: nat
  ts_file_size :: nat
  ts_text_length :: nat
  ts_chunks_stored :: nat
  ts_file_stored :: bool
  ts_status :: string

datatype train_result = TrainFailed train_failure | TrainSucceeded train_success

text \<open>The body of the \<open>try\<close> block of \<open>train\<close>.\<close>

definition train_steps :: "env \<Rightarrow> world \<Rightarrow> string \<Rightarrow> upload_file \<Rightarrow> (exn + train_result) \<times> world" where
  "train_steps ev w user_id file =
     (let w1 = record_call ReadUpload w
      in case raises ev ReadUpload of
           Some e \<Rightarrow> (Inl e, w1)
         | None \<Rightarrow>
             (let file_content = uf_content file;
                  filename = user_id @ ''_'' @ uf_filename file
              in case extract_text_from_file ev file_content (uf_filename file) of
                   Inl e \<Rightarrow> (Inl e, w1)
                 | Inr file_text \<Rightarrow>
                     (case save_uploaded_document ev w1 user_id filename file_text of
                        (Inl e, w2) \<Rightarrow> (Inl e, w2)
                      | (Inr u, w2) \<Rightarrow>
                          (let text_chunks = chunk_text ev file_text
                           in if text_chunks = [] then
                                (Inr (TrainFailed \<lparr> tf_error = ''Processing Error'',
                                        tf_message = Literal ''No chunks generated from document'',
                                        tf_user_id = user_id, tf_filename = uf_filename file,
                                        tf_status = ''failed'' \<rparr>), w2)
                              else
                                (let chunk_metadata = get_metadata_list text_chunks filename user_id
                                 in case store_chunks ev w2 text_chunks chunk_metadata of
                                      (Inl e, w3) \<Rightarrow> (Inl e, w3)
                                    | (Inr u', w3) \<Rightarrow>
                                        (Inr (TrainSucceeded \<lparr> ts_user_id = user_id,
                                                ts_filename = uf_filename file,
                                                ts_total_chunks = length text_chunks,
                                                ts_file_size = length file_content,
                                                ts_text_length = length file_text,
                                                ts_chunks_stored = length text_chunks,
                                                ts_file_stored = True,
                                                ts_status = ''success'' \<rparr>), w3))))))"

text \<open>\<open>train\<close>: any exception of the body becomes a failure result.\<close>

definition train :: "env \<Rightarrow> world \<Rightarrow> string \<Rightarrow> upload_file \<Rightarrow> train_result \<times> world" where
  "train ev w user_id file =
     (case train_steps ev w user_id file of
        (Inr result, w') \<Rightarrow> (result, w')
      | (Inl e, w') \<Rightarrow>
          (TrainFailed \<lparr> tf_error = ''Processing Error'', tf_message = StrOfExn e,
                         tf_user_id = user_id, tf_filename = uf_filename file,
                         tf_status = ''failed'' \<rparr>, w'))"

section \<open>Prompt template (prompt.py)\<close>

text \<open>
  The template text, cut at its three replacement fields. A field is filled with
  \<open>str\<close> of the argument passed for it.
\<close>

datatype segment = Lit string | Field string

definition instruction_lines :: "string list" where
  "instruction_lines =
     [''You are a helpful customer support assistant.'',
      '''',
      ''Please respond to the user's query based on the context provided and refer chat history.'',
      ''Use engaging, friendly, and helpful tone.'',
      ''Highlight key points in bold.'',
      ''Use bullet points for lists and start each bullet point with an asterisk (*) and ensure each appears on a new line.'',
      ''Use engaging, friendly, and helpful tone.'',
      ''Highlight key points in bold.'',
      ''Use bullet points for lists and start each bullet point with an asterisk (*) and ensure each appears on a new line.'',
      ''If the user's query is related to the context, please respond with the most relevant information from the context.'',
      ''If the user's query is not related to the context, please respond with '' @ [CHR 0x22]
        @ ''I'm sorry, I can't help with that.'' @ [CHR 0x22],
      ''Use consistent markdown formatting for all tables, links/deeplinks, and code blocks.'',
      '''']"

definition unlines :: "string list \<Rightarrow> string" where
  "unlines ls = concat (map (\<lambda>l. l @ [CHR 0x0A]) ls)"

definition PROMPT_TEMPLATE :: "segment list" where
  "PROMPT_TEMPLATE =
     [Lit ([CHR 0x0A] @ unlines instruction_lines @ unlines [''Here is the chat history:'']),
      Field ''chat_history'',
      Lit (unlines ['''', '''', ''Here is the context:'']),
      Field ''context'',
      Lit (unlines ['''', '''', ''Here is the user's query:'']),
      Field ''query'',
      Lit (unlines [''''])]"

definition INPUR_VARIABLES :: "string list" where
  "INPUR_VARIABLES = [''chat_history'', ''context'', ''query'']"

text \<open>Filling the fields from keyword arguments; a field without an argument is a KeyError.\<close>

fun format_segments :: "segment list \<Rightarrow> (string \<rightharpoonup> pyval) \<Rightarrow> exn + string" where
  "format_segments [] kwargs = Inr []"
| "format_segments (Lit s # rest) kwargs =
     (case format_segments rest kwargs of Inl e \<Rightarrow> Inl e | Inr t \<Rightarrow> Inr (s @ t))"
| "format_segments (Field name # rest) kwargs =
     (case kwargs name of
        None \<Rightarrow> Inl KeyError
      | Some v \<Rightarrow> (case format_segments rest kwargs of Inl e \<Rightarrow> Inl e | Inr t \<Rightarrow> Inr (py_str v @ t)))"

definition CONTEXT_PROMPT_format :: "string list \<Rightarrow> pyval list \<Rightarrow> string \<Rightarrow> exn + string" where
  "CONTEXT_PROMPT_format chat_history context query =
     format_segments PROMPT_TEMPLATE
       [''chat_history'' \<mapsto> PList (map PStr chat_history),
        ''context'' \<mapsto> PList context,
        ''query'' \<mapsto> PStr query]"

section \<open>Generation client (services/llm\_client.py)\<close>

text \<open>
  \<open>chat\<close> posts the prompt as one user message. A connection failure, and a body that is
  not JSON, are request exceptions without a response and become a RAGError; a status
  from 400 to 599 becomes a RAGAPIError.
\<close>

definition chat :: "env \<Rightarrow> world \<Rightarrow> string \<Rightarrow> (exn + pyval) \<times> world" where
  "chat ev w prompt =
     (let w1 = record_call (LLMChat prompt) w
      in case llm_post ev prompt of
           ConnectionFailed m \<Rightarrow> (Inl (RAGError (NetworkErrorMsg m)), w1)
         | HttpResponse status text body \<Rightarrow>
             (if 400 \<le> status \<and> status < 600
              then (Inl (RAGAPIError status ''Request failed'' text), w1)
              else (case body of
                      Inl m \<Rightarrow> (Inl (RAGError (NetworkErrorMsg m)), w1)
                    | Inr json \<Rightarrow> (Inr json, w1))))"

text \<open>\<open>d.get(key, default)\<close>, \<open>v[key]\<close> for a string key and \<open>v[0]\<close> on a decoded JSON value.\<close>

definition py_get :: "pyval \<Rightarrow> string \<Rightarrow> pyval \<Rightarrow> exn + pyval" where
  "py_get d key dflt =
     (case d of
        PDict kvs \<Rightarrow> Inr (case map_of kvs key of None \<Rightarrow> dflt | Some v \<Rightarrow> v)
      | _ \<Rightarrow> Inl AttributeError)"

definition py_getitem :: "pyval \<Rightarrow> string \<Rightarrow> exn + pyval" where
  "py_getitem v key =
     (case v of
        PDict kvs \<Rightarrow> (case map_of kvs key of None \<Rightarrow> Inl KeyError | Some x \<Rightarrow> Inr x)
      | _ \<Rightarrow> Inl TypeError)"

definition py_getitem0 :: "pyval \<Rightarrow> exn + pyval" where
  "py_getitem0 v =
     (case v of
        PList [] \<Rightarrow> Inl IndexError
      | PList (x # xs) \<Rightarrow> Inr x
      | PStr [] \<Rightarrow> Inl IndexError
      | PStr (c # cs) \<Rightarrow> Inr (PStr [c])
      | PDict kvs \<Rightarrow> Inl KeyError
      | _ \<Rightarrow> Inl TypeError)"

definition bind_exn :: "exn + 'a \<Rightarrow> ('a \<Rightarrow> exn + 'b) \<Rightarrow> exn + 'b" where
  "bind_exn m f = (case m of Inl e \<Rightarrow> Inl e | Inr a \<Rightarrow> f a)"

record llm_fields =
  lf_model :: pyval
  lf_response :: pyval
  lf_input_tokens :: pyval
  lf_output_tokens :: pyval

definition get_response_fields :: "pyval \<Rightarrow> exn + llm_fields" where
  "get_response_fields response =
     bind_exn (py_get response ''model'' (PStr [])) (\<lambda>model.
     bind_exn (py_getitem response ''choices'') (\<lambda>choices.
     bind_exn (py_getitem0 choices) (\<lambda>choice.
     bind_exn (py_getitem choice ''message'') (\<lambda>message.
     bind_exn (py_getitem message ''content'') (\<lambda>content.
     bind_exn (py_get response ''usage'' (PDict [])) (\<lambda>usage1.
     bind_exn (py_get usage1 ''prompt_tokens'' (PInt 0)) (\<lambda>input_tokens.
     bind_exn (py_get response ''usage'' (PDict [])) (\<lambda>usage2.
     bind_exn (py_get usage2 ''completion_tokens'' (PInt 0)) (\<lambda>output_tokens.
       Inr \<lparr> lf_model = model, lf_response = content,
             lf_input_tokens = input_tokens, lf_output_tokens = output_tokens \<rparr>)))))))))"

text \<open>\<open>get_response\<close>: a KeyError or IndexError becomes a RAGError, anything else passes.\<close>

definition get_response :: "pyval \<Rightarrow> exn + llm_fields" where
  "get_response response =
     (case get_response_fields response of
        Inl KeyError \<Rightarrow> Inl (RAGError (InvalidResponseFormat KeyError))
      | Inl IndexError \<Rightarrow> Inl (RAGError (InvalidResponseFormat IndexError))
      | Inl e \<Rightarrow> Inl e
      | Inr extracted \<Rightarrow> Inr extracted)"

section \<open>Query pipeline (routers/predict\_router.py)\<close>

text \<open>
  \<open>response[:200]\<close> in the log line after generation: only strings and lists can be
  sliced, any other value raises.
\<close>

definition py_slice_check :: "pyval \<Rightarrow> exn + unit" where
  "py_slice_check v = (case v of PStr s \<Rightarrow> Inr () | PList xs \<Rightarrow> Inr () | _ \<Rightarrow> Inl TypeError)"

text \<open>
  \<open>f"{t:.3f}s"\<close> for an elapsed time; \<open>clock ev n\<close> is the value of the \<open>n\<close>-th call of
  \<open>time.time()\<close> that \<open>predict_flow\<close> itself makes, counted from 0.
\<close>

definition seconds :: "env \<Rightarrow> real \<Rightarrow> pyval" where
  "seconds ev t = PStr (fmt3 ev t @ ''s'')"

definition predict_result ::
  "env \<Rightarrow> llm_fields \<Rightarrow> pyval list \<Rightarrow> string list \<Rightarrow> pyval" where
  "predict_result ev extracted context_chunks chat_history =
     PDict [(''response'', lf_response extracted),
            (''model'', lf_model extracted),
            (''input_tokens'', lf_input_tokens extracted),
            (''output_tokens'', lf_output_tokens extracted),
            (''chunks_retrieved'', PInt (int (length context_chunks))),
            (''chat_history_length'', PInt (int (length chat_history))),
            (''timing_breakdown'',
               PDict [(''retrieval'', seconds ev (clock ev 2 - clock ev 1)),
                      (''history'', seconds ev (clock ev 4 - clock ev 3)),
                      (''prompt'', seconds ev (clock ev 6 - clock ev 5)),
                      (''llm'', seconds ev (clock ev 8 - clock ev 7)),
                      (''save'', seconds ev (clock ev 10 - clock ev 9)),
                      (''total'', seconds ev (clock ev 11 - clock ev 0))])]"

text \<open>The four extractions from the generation response, each a call of \<open>get_response\<close>.\<close>

definition extract_fields :: "pyval \<Rightarrow> exn + llm_fields" where
  "extract_fields json_response =
     bind_exn (get_response json_response) (\<lambda>r1.
     bind_exn (get_response json_response) (\<lambda>r2.
     bind_exn (get_response json_response) (\<lambda>r3.
     bind_exn (get_response json_response) (\<lambda>r4.
       Inr \<lparr> lf_model = lf_model r4, lf_response = lf_response r1,
             lf_input_tokens = lf_input_tokens r2, lf_output_tokens = lf_output_tokens r3 \<rparr>))))"

text \<open>The body of the \<open>try\<close> block of \<open>predict_flow\<close>.\<close>

definition predict_steps ::
  "env \<Rightarrow> world \<Rightarrow> string \<Rightarrow> string \<Rightarrow> string \<Rightarrow> (exn + pyval) \<times> world" where
  "predict_steps ev w query session_id user_id =
     (case retrieve_similar_chunks ev w query 5 of
        (Inl e, w1) \<Rightarrow> (Inl e, w1)
      | (Inr context_chunks, w1) \<Rightarrow>
     (case get_chat_history ev w1 session_id of
        (Inl e, w2) \<Rightarrow> (Inl e, w2)
      | (Inr chat_history, w2) \<Rightarrow>
     (case CONTEXT_PROMPT_format chat_history context_chunks query of
        Inl e \<Rightarrow> (Inl e, w2)
      | Inr system_prompt \<Rightarrow>
     (case chat ev w2 system_prompt of
        (Inl e, w3) \<Rightarrow> (Inl e, w3)
      | (Inr json_response, w3) \<Rightarrow>
     (case extract_fields json_response of
        Inl e \<Rightarrow> (Inl e, w3)
      | Inr extracted \<Rightarrow>
     (case py_slice_check (lf_response extracted) of
        Inl e \<Rightarrow> (Inl e, w3)
      | Inr u \<Rightarrow>
     (case save_chat_session ev w3 user_id session_id (PStr query) (lf_response extracted) of
        (Inl e, w4) \<Rightarrow> (Inl e, w4)
      | (Inr uid, w4) \<Rightarrow>
          (Inr (predict_result ev extracted context_chunks chat_history), w4))))))))"

text \<open>\<open>predict_flow\<close>: any exception of the body is replaced by one RAGError.\<close>

definition predict_flow ::
  "env \<Rightarrow> world \<Rightarrow> string \<Rightarrow> string \<Rightarrow> string \<Rightarrow> (exn + pyval) \<times> world" where
  "predict_flow ev w query session_id user_id =
     (case predict_steps ev w query session_id user_id of
        (Inl e, w') \<Rightarrow> (Inl (RAGError (InPredictFlow e)), w')
      | (Inr result, w') \<Rightarrow> (Inr result, w'))"

section \<open>HTTP endpoints (main.py)\<close>

datatype http_detail =
    InvalidClientSecret
  | MissingHeaderField
  | PredictionFailed exn
  | TrainingFailed exn

datatype http_reply =
    PredictOk pyval
  | TrainOk train_result
  | HTTPError int http_detail

record PredictRequest =
  pr_query :: string
  pr_session_id :: string
  pr_user_id :: string
  pr_caching_flag :: "bool option"

definition verify_client_secret :: "env \<Rightarrow> string \<Rightarrow> (int \<times> http_detail) + string" where
  "verify_client_secret ev client_secret =
     (if client_secret \<noteq> CLIENT_SECRET_KEY ev then Inl (401, InvalidClientSecret)
      else Inr client_secret)"

text \<open>
  The dependency \<open>Depends(verify_client_secret)\<close> with its parameter
  \<open>Header(..., alias="X-Client-Secret")\<close>: the header is required, so a request without
  it is answered by the framework with its validation error, status 422, and
  \<open>verify_client_secret\<close> is not called.
\<close>

definition client_secret_dependency :: "env \<Rightarrow> string option \<Rightarrow> (int \<times> http_detail) + string" where
  "client_secret_dependency ev header =
     (case header of
        None \<Rightarrow> Inl (422, MissingHeaderField)
      | Some client_secret \<Rightarrow> verify_client_secret ev client_secret)"

text \<open>
  Building a router object builds a \<open>RetrieverService\<close>, which lists the collections of the
  index and creates the collection when it is not there.
\<close>

definition RetrieverService_init :: "env \<Rightarrow> world \<Rightarrow> (exn + unit) \<times> world" where
  "RetrieverService_init ev w =
     (let w1 = record_call QdrantGetCollections w
      in case raises ev QdrantGetCollections of
           Some e \<Rightarrow> (Inl e, w1)
         | None \<Rightarrow>
             (if collection_exists w then (Inr (), w1)
              else (let w2 = record_call QdrantCreateCollection w1
                    in case raises ev QdrantCreateCollection of
                         Some e \<Rightarrow> (Inl e, w2)
                       | None \<Rightarrow> (Inr (), w2\<lparr> collection_exists := True \<rparr>))))"

definition predict :: "env \<Rightarrow> world \<Rightarrow> string option \<Rightarrow> PredictRequest \<Rightarrow> http_reply \<times> world" where
  "predict ev w header req =
     (case client_secret_dependency ev header of
        Inl (status, detail) \<Rightarrow> (HTTPError status detail, w)
      | Inr client_secret \<Rightarrow>
          (case RetrieverService_init ev w of
             (Inl e, w1) \<Rightarrow> (HTTPError 500 (PredictionFailed e), w1)
           | (Inr u, w1) \<Rightarrow>
               (case predict_flow ev w1 (pr_query req) (pr_session_id req) (pr_user_id req) of
                  (Inl e, w2) \<Rightarrow> (HTTPError 500 (PredictionFailed e), w2)
                | (Inr result, w2) \<Rightarrow> (PredictOk result, w2))))"

definition train_endpoint ::
  "env \<Rightarrow> world \<Rightarrow> string option \<Rightarrow> string \<Rightarrow> upload_file \<Rightarrow> http_reply \<times> world" where
  "train_endpoint ev w header user_id file =
     (case client_secret_dependency ev header of
        Inl (status, detail) \<Rightarrow> (HTTPError status detail, w)
      | Inr client_secret \<Rightarrow>
          (case RetrieverService_init ev w of
             (Inl e, w1) \<Rightarrow> (HTTPError 500 (TrainingFailed e), w1)
           | (Inr u, w1) \<Rightarrow>
               (case train ev w1 user_id file of
                  (result, w2) \<Rightarrow> (TrainOk result, w2))))"

section \<open>Notions used in the statements\<close>

text \<open>The two lines a stored turn contributes to the history.\<close>

definition turn_lines :: "chat_doc \<Rightarrow> string list" where
  "turn_lines c = [query_line c, response_line c]"

text \<open>The point that \<open>store_chunks\<close> builds for the text at index \<open>i\<close>, with the \<open>c\<close>-th identifier of the
  UUID generator and the given vector.\<close>

definition point_at :: "env \<Rightarrow> string list \<Rightarrow> (string \<rightharpoonup> pyval) list \<Rightarrow> nat \<Rightarrow> nat \<Rightarrow> vector \<Rightarrow> point" where
  "point_at ev texts metadatas i c embedding =
     \<lparr> pt_id = uuid4 ev c, pt_vector = embedding,
       pt_payload = [''text'' \<mapsto> PStr (texts ! i)]
                      ++ (if i < length metadatas then metadatas ! i else Map.empty) \<rparr>"

text \<open>Whether a call is an insert into the chat collection.\<close>

definition is_chat_insert :: "call \<Rightarrow> bool" where
  "is_chat_insert c = (case c of MongoInsertChat d \<Rightarrow> True | _ \<Rightarrow> False)"

text \<open>The document that \<open>save_chat_session\<close> inserts.\<close>

definition new_turn :: "env \<Rightarrow> string \<Rightarrow> string \<Rightarrow> string \<Rightarrow> pyval \<Rightarrow> chat_doc" where
  "new_turn ev user_id session_id query response =
     \<lparr> cd_user_id = user_id, cd_session_id = session_id, cd_query = Some (PStr query),
       cd_response = Some response, cd_timestamp = utcnow ev \<rparr>"

text \<open>Steps 1 to 4 of \<open>predict_flow\<close>, the part of its body before the chat turn is saved:
  retrieval, history fetch, prompt assembly, and generation with the extraction of the
  response fields and the log line that slices the response. \<open>predict_steps\<close> is these steps
  followed by the save (lemma \<open>predict_steps_split\<close>).\<close>

definition steps_1_to_4 ::
  "env \<Rightarrow> world \<Rightarrow> string \<Rightarrow> string \<Rightarrow> (exn + pyval list \<times> string list \<times> llm_fields) \<times> world" where
  "steps_1_to_4 ev w query session_id =
     (case retrieve_similar_chunks ev w query 5 of
        (Inl e, w1) \<Rightarrow> (Inl e, w1)
      | (Inr context_chunks, w1) \<Rightarrow>
     (case get_chat_history ev w1 session_id of
        (Inl e, w2) \<Rightarrow> (Inl e, w2)
      | (Inr chat_history, w2) \<Rightarrow>
     (case CONTEXT_PROMPT_format chat_history context_chunks query of
        Inl e \<Rightarrow> (Inl e, w2)
      | Inr system_prompt \<Rightarrow>
     (case chat ev w2 system_prompt of
        (Inl e, w3) \<Rightarrow> (Inl e, w3)
      | (Inr json_response, w3) \<Rightarrow>
     (case extract_fields json_response of
        Inl e \<Rightarrow> (Inl e, w3)
      | Inr extracted \<Rightarrow>
     (case py_slice_check (lf_response extracted) of
        Inl e \<Rightarrow> (Inl e, w3)
      | Inr u \<Rightarrow> (Inr (context_chunks, chat_history, extracted), w3)))))))"

section \<open>Example data\<close>

definition ex_env :: env where
  "ex_env = \<lparr> raises = (\<lambda>_. None), utcnow = 1000,
               embed_text_api = (\<lambda>t. Inr [real (length t), 1]),
               embed_texts_api = (\<lambda>ts. Inr (map (\<lambda>t. [real (length t), 1]) ts)),
               score = (\<lambda>a b. sum_list (map2 (*) a b)),
               uuid4 = (\<lambda>n. ''id-'' @ show_nat n),
               llm_post = (\<lambda>p. HttpResponse 200 ''ok''
                  (Inr (PDict [(''model'', PStr ''gpt-3.5-turbo''),
                     (''choices'', PList [PDict [(''message'', PDict [(''content'', PStr ''Hello'')])]]),
                     (''usage'', PDict [(''prompt_tokens'', PInt 12), (''completion_tokens'', PInt 3)])]))),
               split_text = (\<lambda>t. if t = [] then [] else [t]),
               decode_utf8 = (\<lambda>bs. if list_all (\<lambda>b. (of_char b :: nat) < 128) bs then Some bs else None),
               pdf_pages = (\<lambda>bs. Inr []),
               clock = (\<lambda>n. real n),
               fmt3 = (\<lambda>r. ''0.000''),
               CLIENT_SECRET_KEY = ''secret'' \<rparr>"

definition ex_world :: world where
  "ex_world = \<lparr> docs_collection = [], chat_collection = [], collection_exists = True,
                 qdrant_points = [], uuid_calls = 0, calls = [] \<rparr>"

definition ex_partial_db :: world where
  "ex_partial_db = ex_world \<lparr>
      chat_collection := [\<lparr> cd_user_id = ''u1'', cd_session_id = ''s1'', cd_query = None,
                           cd_response = Some (PStr ''hi''), cd_timestamp = 5 \<rparr>] \<rparr>"

definition ex_chat :: "string \<Rightarrow> string \<Rightarrow> string \<Rightarrow> int \<Rightarrow> chat_doc" where
  "ex_chat sid q r ts = \<lparr> cd_user_id = ''u1'', cd_session_id = sid,
                         cd_query = Some (PStr q), cd_response = Some (PStr r),
                         cd_timestamp = ts \<rparr>"

definition ex_five_db :: world where
  "ex_five_db = ex_world \<lparr> chat_collection :=
        [ex_chat ''S'' ''q1'' ''r1'' 1, ex_chat ''S'' ''q2'' ''r2'' 2, ex_chat ''other'' ''x'' ''y'' 3,
         ex_chat ''S'' ''q3'' ''r3'' 4, ex_chat ''S'' ''q4'' ''r4'' 5, ex_chat ''S'' ''q5'' ''r5'' 6] \<rparr>"

definition ex_index :: world where
  "ex_index = ex_world \<lparr> qdrant_points :=
      [\<lparr> pt_id = ''p1'', pt_vector = [1, 0], pt_payload = [''text'' \<mapsto> PStr ''alpha''] \<rparr>,
       \<lparr> pt_id = ''p2'', pt_vector = [3, 0], pt_payload = [''source'' \<mapsto> PStr ''f''] \<rparr>,
       \<lparr> pt_id = ''p3'', pt_vector = [2, 0], pt_payload = [''text'' \<mapsto> PStr ''gamma''] \<rparr>] \<rparr>"

definition ex_empty_upload :: upload_file where
  "ex_empty_upload = \<lparr> uf_filename = ''empty.txt'', uf_content = [] \<rparr>"

definition ex_env_llm_down :: env where
  "ex_env_llm_down = ex_env \<lparr> llm_post := (\<lambda>p. ConnectionFailed ''down'') \<rparr>"

definition ex_request :: PredictRequest where
  "ex_request = \<lparr> pr_query = ''hi'', pr_session_id = ''S'', pr_user_id = ''u1'',
                   pr_caching_flag = Some True \<rparr>"

section \<open>Verified properties\<close>

subsection \<open>Chat history: shape of the formatted lines\<close>

lemma format_chats_acc:
  "format_chats chats acc = acc @ concat (map (\<lambda>c. [query_line c, response_line c]) chats)"
  by (induction chats arbitrary: acc) simp_all

lemma length_turn_lines:
  "length (concat (map (\<lambda>c. [query_line c, response_line c]) chats)) = 2 * length chats"
  by (induction chats) simp_all

lemma turn_lines_nth_even:
  "k < length chats \<Longrightarrow>
   concat (map (\<lambda>c. [query_line c, response_line c]) chats) ! (2 * k) = query_line (chats ! k)"
proof (induction chats arbitrary: k)
  case Nil
  then show ?case by simp
next
  case (Cons c cs)
  show ?case
  proof (cases k)
    case 0
    then show ?thesis by simp
  next
    case (Suc j)
    with Cons show ?thesis by simp
  qed
qed

lemma turn_lines_nth_odd:
  "k < length chats \<Longrightarrow>
   concat (map (\<lambda>c. [query_line c, response_line c]) chats) ! (2 * k + 1) = response_line (chats ! k)"
proof (induction chats arbitrary: k)
  case Nil
  then show ?case by simp
next
  case (Cons c cs)
  show ?case
  proof (cases k)
    case 0
    then show ?thesis by simp
  next
    case (Suc j)
    with Cons show ?thesis by simp
  qed
qed

text \<open>
  C10. Whatever turns are stored, also turns without a query or a response field, a
  history fetch whose database query returns gives a list of even length; line \<open>2k\<close> is
  the query line of the \<open>k\<close>-th selected turn and starts with \<open>QUERY: \<close>, line \<open>2k+1\<close> is
  its response line and starts with \<open>RESPONSE: \<close>; a missing field renders as the empty
  string.
\<close>

theorem get_chat_history_alternates:
  assumes "raises ev (MongoFindChats sid) = None"
  shows "\<exists>ls. fst (get_chat_history ev db sid) = Inr ls \<and> even (length ls)
           \<and> (\<forall>k. 2 * k < length ls \<longrightarrow>
                 prefix ''QUERY: '' (ls ! (2 * k)) \<and> prefix ''RESPONSE: '' (ls ! (2 * k + 1))
               \<and> ls ! (2 * k) = ''QUERY: '' @
                    (case cd_query (rev (last_chats (chat_collection db) sid) ! k) of
                       None \<Rightarrow> '''' | Some v \<Rightarrow> py_str v)
               \<and> ls ! (2 * k + 1) = ''RESPONSE: '' @
                    (case cd_response (rev (last_chats (chat_collection db) sid) ! k) of
                       None \<Rightarrow> '''' | Some v \<Rightarrow> py_str v))"
proof -
  define chats where "chats = rev (last_chats (chat_collection db) sid)"
  define ls where "ls = concat (map (\<lambda>c. [query_line c, response_line c]) chats)"
  have res: "fst (get_chat_history ev db sid) = Inr ls"
    using assms by (simp add: get_chat_history_def format_chats_acc ls_def chats_def)
  have len: "length ls = 2 * length chats"
    unfolding ls_def by (rule length_turn_lines)
  have lines: "prefix ''QUERY: '' (ls ! (2 * k)) \<and> prefix ''RESPONSE: '' (ls ! (2 * k + 1))
      \<and> ls ! (2 * k) = ''QUERY: '' @ (case cd_query (chats ! k) of None \<Rightarrow> '''' | Some v \<Rightarrow> py_str v)
      \<and> ls ! (2 * k + 1) = ''RESPONSE: '' @ (case cd_response (chats ! k) of None \<Rightarrow> '''' | Some v \<Rightarrow> py_str v)"
    if "2 * k < length ls" for k
  proof -
    from that len have k: "k < length chats" by simp
    have q: "ls ! (2 * k) = query_line (chats ! k)"
      unfolding ls_def by (rule turn_lines_nth_even [OF k])
    have r: "ls ! (2 * k + 1) = response_line (chats ! k)"
      unfolding ls_def by (rule turn_lines_nth_odd [OF k])
    show ?thesis
      unfolding q r by (simp add: query_line_def response_line_def get_or_empty_def)
  qed
  from res len lines show ?thesis
    unfolding chats_def by auto
qed

theorem get_chat_history_alternates_witness:
  "raises ex_env (MongoFindChats ''s1'') = None
   \<and> fst (get_chat_history ex_env ex_partial_db ''s1'') = Inr [''QUERY: '', ''RESPONSE: hi'']
   \<and> (\<exists>ls. fst (get_chat_history ex_env ex_partial_db ''s1'') = Inr ls \<and> even (length ls)
         \<and> prefix ''QUERY: '' (ls ! 0) \<and> prefix ''RESPONSE: '' (ls ! 1))"
proof -
  have h: "raises ex_env (MongoFindChats ''s1'') = None"
    by (simp add: ex_env_def)
  have v: "fst (get_chat_history ex_env ex_partial_db ''s1'') = Inr [''QUERY: '', ''RESPONSE: hi'']"
    by (simp add: get_chat_history_def ex_env_def ex_partial_db_def last_chats_def
        sort_timestamp_desc_def find_session_def query_line_def response_line_def get_or_empty_def)
  from get_chat_history_alternates [OF h, of ex_partial_db]
  obtain ls where ls: "fst (get_chat_history ex_env ex_partial_db ''s1'') = Inr ls"
      "even (length ls)"
      "\<forall>k. 2 * k < length ls \<longrightarrow>
         prefix ''QUERY: '' (ls ! (2 * k)) \<and> prefix ''RESPONSE: '' (ls ! (2 * k + 1))"
    by blast
  from ls(1) v have "ls = [''QUERY: '', ''RESPONSE: hi'']" by simp
  then have "length ls = 2" by simp
  with ls(3) have "prefix ''QUERY: '' (ls ! (2 * 0)) \<and> prefix ''RESPONSE: '' (ls ! (2 * 0 + 1))"
    by (metis mult_zero_right zero_less_numeral)
  with h v ls(1,2) show ?thesis by auto
qed

subsection \<open>Chat history: the window of the three most recent turns\<close>

lemma filter_key_distinct:
  "distinct (map f xs) \<Longrightarrow> k \<in> set xs \<Longrightarrow> filter (\<lambda>x. f k = f x) xs = [k]"
proof (induction xs)
  case Nil
  then show ?case by simp
next
  case (Cons a xs)
  show ?case
  proof (cases "k = a")
    case True
    with Cons.prems have "\<forall>x \<in> set xs. f a \<noteq> f x" by auto
    then have "filter (\<lambda>x. f a = f x) xs = []" by (simp add: filter_empty_conv)
    with True show ?thesis by simp
  next
    case False
    with Cons.prems have k: "k \<in> set xs" by simp
    from Cons.prems have "f a \<notin> set (map f xs)" by simp
    moreover from k have "f k \<in> set (map f xs)" by simp
    ultimately have ne: "f k \<noteq> f a" by metis
    from Cons.prems have "distinct (map f xs)" by simp
    from Cons.IH [OF this k] ne show ?thesis by simp
  qed
qed

lemma rev_sort_key_neg:
  fixes f :: "'a \<Rightarrow> int"
  assumes "distinct (map f xs)"
  shows "rev (sort_key (\<lambda>x. - f x) xs) = sort_key f xs"
proof (rule properties_for_sort_key [symmetric])
  show "mset (rev (sort_key (\<lambda>x. - f x) xs)) = mset xs" by simp
next
  fix k assume "k \<in> set (rev (sort_key (\<lambda>x. - f x) xs))"
  then have k: "k \<in> set xs" by simp
  have d: "distinct (map f (rev (sort_key (\<lambda>x. - f x) xs)))"
    using assms by (metis distinct_map distinct_rev set_rev set_sort distinct_sort)
  have "filter (\<lambda>x. f k = f x) (rev (sort_key (\<lambda>x. - f x) xs)) = [k]"
    using d k by (intro filter_key_distinct) simp_all
  moreover have "filter (\<lambda>x. f k = f x) xs = [k]"
    using assms k by (rule filter_key_distinct)
  ultimately show "filter (\<lambda>x. f k = f x) (rev (sort_key (\<lambda>x. - f x) xs)) = filter (\<lambda>x. f k = f x) xs"
    by simp
next
  have "sorted (map (\<lambda>x. - f x) (sort_key (\<lambda>x. - f x) xs))" by (rule sorted_sort_key)
  then have "sorted_wrt (\<lambda>a b. f b \<le> f a) (sort_key (\<lambda>x. - f x) xs)"
    by (simp add: sorted_wrt_map)
  then have "sorted_wrt (\<lambda>a b. f a \<le> f b) (rev (sort_key (\<lambda>x. - f x) xs))"
    by (simp add: sorted_wrt_rev)
  then show "sorted (map f (rev (sort_key (\<lambda>x. - f x) xs)))"
    by (simp add: sorted_wrt_map)
qed

lemma take_drop_sorted_le:
  fixes f :: "'a \<Rightarrow> int"
  assumes "sorted (map f xs)" "x \<in> set (take k xs)" "y \<in> set (drop k xs)"
  shows "f x \<le> f y"
proof -
  have "sorted (map f (take k xs) @ map f (drop k xs))"
    using assms(1) by (simp flip: map_append)
  then show ?thesis
    using assms(2,3) by (auto simp: sorted_append)
qed

text \<open>
  C2. With \<open>n\<close> turns stored for a session, a history fetch whose database query
  returns yields the lines of \<open>min n 3\<close> turns, two lines per turn (query line, then
  response line), \<open>2 * min n 3\<close> lines in all. The selected turns are in ascending
  timestamp order, they are stored turns of that session, and no turn left out is more
  recent than a selected one. When the timestamps of the session are pairwise different
  the selection is exactly the last \<open>min n 3\<close> turns of the session in timestamp order.
\<close>

theorem get_chat_history_window:
  assumes "raises ev (MongoFindChats sid) = None"
  shows "\<exists>sel. fst (get_chat_history ev db sid) = Inr (concat (map turn_lines sel))
      \<and> length (concat (map turn_lines sel)) = 2 * min (length (find_session (chat_collection db) sid)) 3
      \<and> length sel = min (length (find_session (chat_collection db) sid)) 3
      \<and> sorted (map cd_timestamp sel)
      \<and> mset sel \<subseteq># mset (find_session (chat_collection db) sid)
      \<and> (\<forall>t \<in># mset (find_session (chat_collection db) sid) - mset sel.
            \<forall>s \<in> set sel. cd_timestamp t \<le> cd_timestamp s)
      \<and> (distinct (map cd_timestamp (find_session (chat_collection db) sid)) \<longrightarrow>
            sel = drop (length (find_session (chat_collection db) sid) - 3)
                    (sort_key cd_timestamp (find_session (chat_collection db) sid)))"
proof -
  define turns where "turns = find_session (chat_collection db) sid"
  define S where "S = sort_key (\<lambda>d. - cd_timestamp d) turns"
  define sel where "sel = rev (take 3 S)"
  have msetS: "mset S = mset turns" by (simp add: S_def)
  have lenS: "length S = length turns" by (simp add: S_def)
  have sortedS: "sorted (map (\<lambda>d. - cd_timestamp d) S)"
    unfolding S_def by (rule sorted_sort_key)
  have split: "mset turns = mset sel + mset (drop 3 S)"
  proof -
    have "mset S = mset (take 3 S) + mset (drop 3 S)"
      by (metis append_take_drop_id mset_append)
    then show ?thesis by (simp add: msetS sel_def)
  qed
  have res: "fst (get_chat_history ev db sid) = Inr (concat (map turn_lines sel))"
    using assms
    by (simp add: get_chat_history_def format_chats_acc sel_def S_def turns_def
        last_chats_def sort_timestamp_desc_def turn_lines_def [abs_def])
  have lsel: "length sel = min (length turns) 3"
    by (simp add: sel_def lenS)
  have llines: "length (concat (map turn_lines sel)) = 2 * min (length turns) 3"
    using length_turn_lines [of sel] lsel by (simp add: turn_lines_def [abs_def])
  have chrono: "sorted (map cd_timestamp sel)"
  proof -
    have "sorted_wrt (\<lambda>a b. cd_timestamp b \<le> cd_timestamp a) S"
      using sortedS by (simp add: sorted_wrt_map)
    then have "sorted_wrt (\<lambda>a b. cd_timestamp b \<le> cd_timestamp a) (take 3 S)"
      by (rule sorted_wrt_take)
    then have "sorted_wrt (\<lambda>a b. cd_timestamp a \<le> cd_timestamp b) (rev (take 3 S))"
      by (simp add: sorted_wrt_rev)
    then show ?thesis by (simp add: sel_def sorted_wrt_map)
  qed
  have sub: "mset sel \<subseteq># mset turns"
    using split by simp
  have recent: "\<forall>t \<in># mset turns - mset sel. \<forall>s \<in> set sel. cd_timestamp t \<le> cd_timestamp s"
  proof (intro ballI)
    fix t s assume "t \<in># mset turns - mset sel" and s: "s \<in> set sel"
    then have t: "t \<in> set (drop 3 S)" by (simp add: split)
    from s have s': "s \<in> set (take 3 S)" by (simp add: sel_def)
    from take_drop_sorted_le [OF sortedS s' t] show "cd_timestamp t \<le> cd_timestamp s" by simp
  qed
  have exact: "sel = drop (length turns - 3) (sort_key cd_timestamp turns)"
    if "distinct (map cd_timestamp turns)"
  proof -
    have "rev S = sort_key cd_timestamp turns"
      unfolding S_def using that by (rule rev_sort_key_neg)
    then show ?thesis
      by (simp add: sel_def rev_take lenS)
  qed
  from res llines lsel chrono sub recent exact show ?thesis
    unfolding turns_def by blast
qed

theorem get_chat_history_window_witness:
  "raises ex_env (MongoFindChats ''S'') = None
   \<and> length (find_session (chat_collection ex_five_db) ''S'') = 5
   \<and> fst (get_chat_history ex_env ex_five_db ''S'') =
       Inr [''QUERY: q3'', ''RESPONSE: r3'', ''QUERY: q4'', ''RESPONSE: r4'',
            ''QUERY: q5'', ''RESPONSE: r5'']"
proof -
  have h: "raises ex_env (MongoFindChats ''S'') = None"
    by (simp add: ex_env_def)
  have turns: "find_session (chat_collection ex_five_db) ''S'' =
      [ex_chat ''S'' ''q1'' ''r1'' 1, ex_chat ''S'' ''q2'' ''r2'' 2,
       ex_chat ''S'' ''q3'' ''r3'' 4, ex_chat ''S'' ''q4'' ''r4'' 5, ex_chat ''S'' ''q5'' ''r5'' 6]"
    by (simp add: find_session_def ex_five_db_def ex_chat_def)
  have d: "distinct (map cd_timestamp (find_session (chat_collection ex_five_db) ''S''))"
    unfolding turns by (simp add: ex_chat_def)
  from get_chat_history_window [OF h, of ex_five_db] obtain sel where
    r: "fst (get_chat_history ex_env ex_five_db ''S'') = Inr (concat (map turn_lines sel))" and
    e: "distinct (map cd_timestamp (find_session (chat_collection ex_five_db) ''S'')) \<longrightarrow>
          sel = drop (length (find_session (chat_collection ex_five_db) ''S'') - 3)
                  (sort_key cd_timestamp (find_session (chat_collection ex_five_db) ''S''))"
    by blast
  from e d have "sel = drop (length (find_session (chat_collection ex_five_db) ''S'') - 3)
                  (sort_key cd_timestamp (find_session (chat_collection ex_five_db) ''S''))"
    by blast
  then have "sel = [ex_chat ''S'' ''q3'' ''r3'' 4, ex_chat ''S'' ''q4'' ''r4'' 5, ex_chat ''S'' ''q5'' ''r5'' 6]"
    unfolding turns by (simp add: ex_chat_def)
  with r have "fst (get_chat_history ex_env ex_five_db ''S'') =
       Inr [''QUERY: q3'', ''RESPONSE: r3'', ''QUERY: q4'', ''RESPONSE: r4'',
            ''QUERY: q5'', ''RESPONSE: r5'']"
    by (simp add: turn_lines_def query_line_def response_line_def get_or_empty_def ex_chat_def)
  with h turns show ?thesis by simp
qed

subsection \<open>Retrieval service: storing and retrieving chunks\<close>

lemma make_points_step:
  "i < length texts \<Longrightarrow>
   make_points ev texts mds i c (e # embs) acc =
     make_points ev texts mds (i + 1) (c + 1) embs (acc @ [point_at ev texts mds i c e])"
proof -
  assume i: "i < length texts"
  have md: "(mds \<noteq> [] \<and> i < length mds) = (i < length mds)" by auto
  show ?thesis
    unfolding make_points.simps(2) [of ev texts mds i c e embs acc] Let_def point_at_def md
    using i by simp
qed

lemma make_points_run:
  "i + length embs \<le> length texts \<Longrightarrow>
   make_points ev texts mds i c embs acc =
     (Inr (acc @ map (\<lambda>j. point_at ev texts mds (i + j) (c + j) (embs ! j)) [0..<length embs]),
      c + length embs)"
proof (induction embs arbitrary: i c acc)
  case Nil
  then show ?case by simp
next
  case (Cons e embs)
  from Cons.prems have i: "i < length texts" and rest: "(i + 1) + length embs \<le> length texts"
    by simp_all
  show ?case
    unfolding make_points_step [OF i] Cons.IH [OF rest]
    by (simp add: map_upt_Suc del: upt_Suc)
qed

lemma make_points_all:
  assumes "length embs = length texts"
  shows "make_points ev texts mds 0 c embs [] =
           (Inr (map (\<lambda>j. point_at ev texts mds j (c + j) (embs ! j)) [0..<length texts]),
            c + length texts)"
  using make_points_run [of 0 embs texts ev mds c "[]"] assms by simp

lemma upsert_point_fresh:
  "pt_id p \<notin> pt_id ` set xs \<Longrightarrow> upsert_point p xs = xs @ [p]"
  by (induction xs) auto

lemma upsert_fresh:
  "distinct (map pt_id ps) \<Longrightarrow> pt_id ` set ps \<inter> pt_id ` set xs = {} \<Longrightarrow> upsert xs ps = xs @ ps"
proof (induction ps arbitrary: xs)
  case Nil
  then show ?case by (simp add: upsert_def)
next
  case (Cons p ps)
  from Cons.prems have f: "pt_id p \<notin> pt_id ` set xs" by auto
  from Cons.prems have d: "distinct (map pt_id ps)" by simp
  from Cons.prems have "pt_id ` set ps \<inter> pt_id ` set (xs @ [p]) = {}" by auto
  from Cons.IH [OF d this] have "upsert (xs @ [p]) ps = (xs @ [p]) @ ps" .
  then show ?case
    by (simp add: upsert_def upsert_point_fresh [OF f])
qed

text \<open>
  C7. When the embedding service answers with one vector per text, the index accepts the
  batch, and the identifiers drawn from the UUID generator are pairwise different and
  not yet in the collection, \<open>store_chunks\<close> succeeds and adds exactly \<open>length texts\<close>
  points by a single upsert call. Point \<open>i\<close> carries the \<open>i\<close>-th drawn identifier, the
  \<open>i\<close>-th vector, and the payload \<open>{text: texts[i]}\<close> merged with \<open>metadatas[i]\<close> when
  \<open>i < length metadatas\<close> and with the empty dictionary otherwise, so a shorter metadata
  list does not fail.
\<close>

theorem store_chunks_inserts_all:
  assumes emb: "embed_texts_api ev texts = Inr embs"
    and len: "length embs = length texts"
    and up: "raises ev (QdrantUpsert (length texts)) = None"
    and gi: "raises ev QdrantGetCollection = None"
    and uniq: "distinct (map (uuid4 ev) [uuid_calls w..<uuid_calls w + length texts])"
    and fresh: "\<forall>j<length texts. uuid4 ev (uuid_calls w + j) \<notin> pt_id ` set (qdrant_points w)"
  shows "\<exists>w' new. store_chunks ev w texts metadatas = (Inr (), w')
      \<and> qdrant_points w' = qdrant_points w @ new
      \<and> length new = length texts
      \<and> distinct (map pt_id new)
      \<and> (\<forall>i<length texts.
            pt_id (new ! i) = uuid4 ev (uuid_calls w + i)
          \<and> pt_vector (new ! i) = embs ! i
          \<and> pt_payload (new ! i) =
              [''text'' \<mapsto> PStr (texts ! i)]
                ++ (if i < length metadatas then metadatas ! i else Map.empty))
      \<and> calls w' = calls w @ (if texts = [] then [] else [EmbedBatch texts])
                      @ [QdrantUpsert (length texts), QdrantGetCollection]
      \<and> docs_collection w' = docs_collection w \<and> chat_collection w' = chat_collection w"
proof -
  define c where "c = uuid_calls w"
  define new where
    "new = map (\<lambda>j. point_at ev texts metadatas j (c + j) (embs ! j)) [0..<length texts]"
  define w1 where "w1 = (if texts = [] then w else record_call (EmbedBatch texts) w)"
  have e: "embed_texts ev w texts = (Inr embs, w1)"
    using emb len by (auto simp: embed_texts_def w1_def)
  have w1: "uuid_calls w1 = c" "qdrant_points w1 = qdrant_points w"
    "docs_collection w1 = docs_collection w" "chat_collection w1 = chat_collection w"
    "calls w1 = calls w @ (if texts = [] then [] else [EmbedBatch texts])"
    by (simp_all add: w1_def record_call_def c_def)
  have mp: "make_points ev texts metadatas 0 c embs [] = (Inr new, c + length texts)"
    unfolding new_def by (rule make_points_all [OF len])
  have ln: "length new = length texts" by (simp add: new_def)
  have ids: "map pt_id new = map (uuid4 ev) [c..<c + length texts]"
  proof -
    have "map pt_id new = map (\<lambda>j. uuid4 ev (c + j)) [0..<length texts]"
      by (simp add: new_def point_at_def)
    also have "\<dots> = map (uuid4 ev) (map (\<lambda>j. c + j) [0..<length texts])" by simp
    also have "map (\<lambda>j. c + j) [0..<length texts] = [c..<c + length texts]"
      by (simp add: map_add_upt add.commute)
    finally show ?thesis .
  qed
  have dn: "distinct (map pt_id new)"
    using uniq by (simp add: ids c_def)
  have disj: "pt_id ` set new \<inter> pt_id ` set (qdrant_points w) = {}"
  proof -
    have "pt_id ` set new = (\<lambda>j. uuid4 ev (c + j)) ` {0..<length texts}"
      by (auto simp: new_def point_at_def image_image)
    with fresh show ?thesis by (auto simp: c_def)
  qed
  have ups: "upsert (qdrant_points w) new = qdrant_points w @ new"
    by (rule upsert_fresh [OF dn disj])
  define w' where
    "w' = record_call QdrantGetCollection
            ((record_call (QdrantUpsert (length texts)) (w1\<lparr> uuid_calls := c + length texts \<rparr>))
               \<lparr> qdrant_points := qdrant_points w @ new \<rparr>)"
  have run: "store_chunks ev w texts metadatas = (Inr (), w')"
    unfolding store_chunks_def e
    by (simp add: w1 mp ln up gi ups record_call_def w'_def Let_def)
  have fields: "\<forall>i<length texts.
            pt_id (new ! i) = uuid4 ev (uuid_calls w + i)
          \<and> pt_vector (new ! i) = embs ! i
          \<and> pt_payload (new ! i) =
              [''text'' \<mapsto> PStr (texts ! i)]
                ++ (if i < length metadatas then metadatas ! i else Map.empty)"
    by (simp add: new_def point_at_def c_def)
  have "qdrant_points w' = qdrant_points w @ new"
    "calls w' = calls w @ (if texts = [] then [] else [EmbedBatch texts])
                      @ [QdrantUpsert (length texts), QdrantGetCollection]"
    "docs_collection w' = docs_collection w" "chat_collection w' = chat_collection w"
    by (simp_all add: w'_def record_call_def w1)
  with run ln dn fields show ?thesis by blast
qed

theorem store_chunks_inserts_all_witness:
  "embed_texts_api ex_env [''a'', ''bb''] = Inr [[1, 1], [2, 1]]
   \<and> distinct (map (uuid4 ex_env) [uuid_calls ex_world..<uuid_calls ex_world + length [''a'', ''bb'']])
   \<and> (\<exists>w' new. store_chunks ex_env ex_world [''a'', ''bb''] [[''source'' \<mapsto> PStr ''u1_f.txt'']] = (Inr (), w')
         \<and> qdrant_points w' = new \<and> length new = 2
         \<and> pt_payload (new ! 0) ''text'' = Some (PStr ''a'')
         \<and> pt_payload (new ! 0) ''source'' = Some (PStr ''u1_f.txt'')
         \<and> pt_payload (new ! 1) ''text'' = Some (PStr ''bb'')
         \<and> pt_payload (new ! 1) ''source'' = None
         \<and> calls w' = [EmbedBatch [''a'', ''bb''], QdrantUpsert 2, QdrantGetCollection])"
proof -
  have emb: "embed_texts_api ex_env [''a'', ''bb''] = Inr [[1, 1], [2, 1]]"
    by (simp add: ex_env_def)
  have len: "length [[1, 1], [2, 1::real]] = length [''a'', ''bb'']" by simp
  have up: "raises ex_env (QdrantUpsert (length [''a'', ''bb''])) = None"
    and gi: "raises ex_env QdrantGetCollection = None"
    by (simp_all add: ex_env_def)
  have uniq: "distinct (map (uuid4 ex_env) [uuid_calls ex_world..<uuid_calls ex_world + length [''a'', ''bb'']])"
    by (simp add: ex_env_def ex_world_def show_nat.simps upt_rec)
  have fresh: "\<forall>j<length [''a'', ''bb'']. uuid4 ex_env (uuid_calls ex_world + j) \<notin> pt_id ` set (qdrant_points ex_world)"
    by (simp add: ex_world_def)
  from store_chunks_inserts_all [OF emb len up gi uniq fresh, of "[[''source'' \<mapsto> PStr ''u1_f.txt'']]"]
  obtain w' new where r: "store_chunks ex_env ex_world [''a'', ''bb''] [[''source'' \<mapsto> PStr ''u1_f.txt'']] = (Inr (), w')"
    and p: "qdrant_points w' = qdrant_points ex_world @ new" "length new = length [''a'', ''bb'']"
    and f: "\<forall>i<length [''a'', ''bb''].
            pt_id (new ! i) = uuid4 ex_env (uuid_calls ex_world + i)
          \<and> pt_vector (new ! i) = [[1, 1], [2, 1]] ! i
          \<and> pt_payload (new ! i) =
              [''text'' \<mapsto> PStr ([''a'', ''bb''] ! i)]
                ++ (if i < length [[''source'' \<mapsto> PStr ''u1_f.txt'']]
                    then [[''source'' \<mapsto> PStr ''u1_f.txt'']] ! i else Map.empty)"
    and c: "calls w' = calls ex_world @ (if [''a'', ''bb''] = [] then [] else [EmbedBatch [''a'', ''bb'']])
                      @ [QdrantUpsert (length [''a'', ''bb'']), QdrantGetCollection]"
    by blast
  from f have f0: "pt_payload (new ! 0) = [''text'' \<mapsto> PStr ''a''] ++ [''source'' \<mapsto> PStr ''u1_f.txt'']"
    by simp
  from f have f1: "pt_payload (new ! Suc 0) = [''text'' \<mapsto> PStr ''bb''] ++ Map.empty"
    by simp
  have q: "pt_payload (new ! 0) ''text'' = Some (PStr ''a'')"
      "pt_payload (new ! 0) ''source'' = Some (PStr ''u1_f.txt'')"
      "pt_payload (new ! 1) ''text'' = Some (PStr ''bb'')"
      "pt_payload (new ! 1) ''source'' = None"
    by (simp_all add: f0 f1)
  from p have n: "qdrant_points w' = new" "length new = 2" by (simp_all add: ex_world_def)
  from c have cl: "calls w' = [EmbedBatch [''a'', ''bb''], QdrantUpsert 2, QdrantGetCollection]"
    by (simp add: ex_world_def)
  from emb uniq r n q cl show ?thesis by blast
qed

text \<open>
  C6. When the query embedding succeeds and the index calls return, the result of
  \<open>retrieve_similar_chunks query k\<close> is the list of the text payloads of the search hits,
  in rank order; it has \<open>min k n\<close> entries for an index of \<open>n\<close> points, so at most \<open>k\<close>;
  a hit without a \<open>text\<close> entry contributes the empty string at its rank; an empty index
  gives the empty list.
\<close>

theorem retrieve_similar_chunks_texts:
  assumes emb: "embed_text_api ev query = Inr qv"
    and s: "raises ev (QdrantSearch k) = None"
    and gi: "raises ev QdrantGetCollection = None"
    and sc: "raises ev QdrantScroll = None"
  shows "\<exists>hits. fst (retrieve_similar_chunks ev w query k) = Inr (map hit_text hits)
      \<and> hits = search ev (qdrant_points w) qv k
      \<and> length hits = min k (length (qdrant_points w))
      \<and> length (map hit_text hits) \<le> k
      \<and> set hits \<subseteq> set (qdrant_points w)
      \<and> (\<forall>i<length hits.
            map hit_text hits ! i =
              (case pt_payload (hits ! i) ''text'' of None \<Rightarrow> PStr [] | Some v \<Rightarrow> v))
      \<and> (qdrant_points w = [] \<longrightarrow> fst (retrieve_similar_chunks ev w query k) = Inr [])"
proof -
  define hits where "hits = search ev (qdrant_points w) qv k"
  have r: "fst (retrieve_similar_chunks ev w query k) = Inr (map hit_text hits)"
    using assms by (simp add: retrieve_similar_chunks_def embed_text_def hits_def Let_def)
  have l: "length hits = min k (length (qdrant_points w))"
    by (simp add: hits_def search_def min.commute)
  have sub: "set hits \<subseteq> set (qdrant_points w)"
    unfolding hits_def search_def using set_take_subset [of k] by fastforce
  have t: "\<forall>i<length hits. map hit_text hits ! i =
              (case pt_payload (hits ! i) ''text'' of None \<Rightarrow> PStr [] | Some v \<Rightarrow> v)"
    by (simp add: hit_text_def)
  have e: "qdrant_points w = [] \<longrightarrow> fst (retrieve_similar_chunks ev w query k) = Inr []"
    using r by (simp add: hits_def search_def)
  from r l sub t e show ?thesis
    unfolding hits_def by auto
qed

theorem retrieve_similar_chunks_texts_witness:
  "embed_text_api ex_env ''hi'' = Inr [2, 1]
   \<and> fst (retrieve_similar_chunks ex_env ex_index ''hi'' 2) = Inr [PStr [], PStr ''gamma'']
   \<and> fst (retrieve_similar_chunks ex_env ex_world ''hi'' 2) = Inr []"
proof -
  have emb: "embed_text_api ex_env ''hi'' = Inr [2, 1]"
    by (simp add: ex_env_def)
  have s: "raises ex_env (QdrantSearch 2) = None"
    and gi: "raises ex_env QdrantGetCollection = None"
    and sc: "raises ex_env QdrantScroll = None"
    by (simp_all add: ex_env_def)
  from retrieve_similar_chunks_texts [OF emb s gi sc, of ex_index]
  have "fst (retrieve_similar_chunks ex_env ex_index ''hi'' 2)
          = Inr (map hit_text (search ex_env (qdrant_points ex_index) [2, 1] 2))"
    by blast
  also have "search ex_env (qdrant_points ex_index) [2, 1] 2 =
      [\<lparr> pt_id = ''p2'', pt_vector = [3, 0], pt_payload = [''source'' \<mapsto> PStr ''f''] \<rparr>,
       \<lparr> pt_id = ''p3'', pt_vector = [2, 0], pt_payload = [''text'' \<mapsto> PStr ''gamma''] \<rparr>]"
    by (simp add: search_def ex_index_def ex_world_def ex_env_def)
  finally have a: "fst (retrieve_similar_chunks ex_env ex_index ''hi'' 2) = Inr [PStr [], PStr ''gamma'']"
    by (simp add: hit_text_def)
  from retrieve_similar_chunks_texts [OF emb s gi sc, of ex_world]
  have b: "fst (retrieve_similar_chunks ex_env ex_world ''hi'' 2) = Inr []"
    by (simp add: ex_world_def)
  from emb a b show ?thesis by simp
qed

subsection \<open>Ingestion of a document without chunks\<close>

text \<open>
  C4 (as amended). When the upload is read, its text is extracted and chunking yields no
  chunk, \<open>train\<close> returns a failure result with status \<open>failed\<close> and never an exception.
  By then the raw document has been sent to the document store: the insert of the upload
  document is the only store call of the run, and the document is in the collection when
  that insert succeeds. No embedding call and no vector-index call is made, so the index
  keeps its points and no chunk is indexed.
\<close>

theorem train_zero_chunks:
  assumes rd: "raises ev ReadUpload = None"
    and ex: "extract_text_from_file ev (uf_content file) (uf_filename file) = Inr text"
    and ch: "chunk_text ev text = []"
  shows "\<exists>f w'. train ev w user_id file = (TrainFailed f, w')
      \<and> tf_status f = ''failed'' \<and> tf_error f = ''Processing Error''
      \<and> tf_user_id f = user_id \<and> tf_filename f = uf_filename file
      \<and> qdrant_points w' = qdrant_points w
      \<and> chat_collection w' = chat_collection w
      \<and> calls w' = calls w @
            [ReadUpload,
             MongoInsertDoc \<lparr> ud_user_id = user_id, ud_filename = user_id @ ''_'' @ uf_filename file,
                              ud_file_content = text, ud_upload_time = utcnow ev \<rparr>]
      \<and> (case raises ev (MongoInsertDoc \<lparr> ud_user_id = user_id,
                            ud_filename = user_id @ ''_'' @ uf_filename file,
                            ud_file_content = text, ud_upload_time = utcnow ev \<rparr>) of
            None \<Rightarrow>
              docs_collection w' = docs_collection w @
                [\<lparr> ud_user_id = user_id, ud_filename = user_id @ ''_'' @ uf_filename file,
                   ud_file_content = text, ud_upload_time = utcnow ev \<rparr>]
              \<and> tf_message f = Literal ''No chunks generated from document''
          | Some e \<Rightarrow> docs_collection w' = docs_collection w \<and> tf_message f = StrOfExn e)"
proof -
  define doc where "doc = \<lparr> ud_user_id = user_id, ud_filename = user_id @ ''_'' @ uf_filename file,
                              ud_file_content = text, ud_upload_time = utcnow ev \<rparr>"
  show ?thesis
  proof (cases "raises ev (MongoInsertDoc doc)")
    case None
    then show ?thesis
      using rd ex ch unfolding doc_def
      by (simp add: train_def train_steps_def save_uploaded_document_def record_call_def Let_def)
  next
    case (Some e)
    then show ?thesis
      using rd ex ch unfolding doc_def
      by (simp add: train_def train_steps_def save_uploaded_document_def record_call_def Let_def)
  qed
qed

theorem train_zero_chunks_witness:
  "raises ex_env ReadUpload = None
   \<and> extract_text_from_file ex_env (uf_content ex_empty_upload) (uf_filename ex_empty_upload) = Inr []
   \<and> chunk_text ex_env [] = []
   \<and> (\<exists>f w'. train ex_env ex_world ''u1'' ex_empty_upload = (TrainFailed f, w')
         \<and> tf_status f = ''failed''
         \<and> tf_message f = Literal ''No chunks generated from document''
         \<and> qdrant_points w' = []
         \<and> length (docs_collection w') = 1)"
proof -
  have rd: "raises ex_env ReadUpload = None" by (simp add: ex_env_def)
  have ex: "extract_text_from_file ex_env (uf_content ex_empty_upload) (uf_filename ex_empty_upload) = Inr []"
    by (simp add: extract_text_from_file_def file_extension_def ex_empty_upload_def ex_env_def
        py_lower_char_def Let_def)
  have ch: "chunk_text ex_env [] = []" by (simp add: chunk_text_def ex_env_def)
  have ins: "raises ex_env c = None" for c by (simp add: ex_env_def)
  from train_zero_chunks [OF rd ex ch, of ex_world "''u1''"] show ?thesis
    using rd ex ch by (auto simp: ins ex_world_def)
qed

text \<open>
  C4 as first stated, with no document-store write, fails on an empty text file:
  chunking yields nothing, and the document store has already received the upload
  document.
\<close>

theorem train_zero_chunks_counterexample:
  "chunk_text ex_env [] = []
   \<and> docs_collection (snd (train ex_env ex_world ''u1'' ex_empty_upload)) =
       [\<lparr> ud_user_id = ''u1'', ud_filename = ''u1_empty.txt'', ud_file_content = [],
          ud_upload_time = 1000 \<rparr>]
   \<and> docs_collection (snd (train ex_env ex_world ''u1'' ex_empty_upload)) \<noteq> docs_collection ex_world"
  by (simp add: train_def train_steps_def save_uploaded_document_def record_call_def Let_def
      extract_text_from_file_def file_extension_def ex_empty_upload_def ex_env_def
      py_lower_char_def chunk_text_def ex_world_def)

subsection \<open>Query pipeline: persistence of the chat turn\<close>

lemma retrieve_effect:
  assumes "retrieve_similar_chunks ev w q k = (r, w1)"
  shows "\<exists>cs. calls w1 = calls w @ cs \<and> \<not> list_ex is_chat_insert cs
           \<and> chat_collection w1 = chat_collection w"
  using assms
  by (auto simp: retrieve_similar_chunks_def embed_text_def record_call_def Let_def is_chat_insert_def
      split: sum.splits option.splits)

lemma history_effect:
  assumes "get_chat_history ev w sid = (r, w1)"
  shows "calls w1 = calls w @ [MongoFindChats sid] \<and> chat_collection w1 = chat_collection w"
  using assms
  by (auto simp: get_chat_history_def record_call_def Let_def split: option.splits)

lemma chat_effect:
  assumes "chat ev w p = (r, w1)"
  shows "calls w1 = calls w @ [LLMChat p] \<and> chat_collection w1 = chat_collection w"
  using assms
  by (auto simp: chat_def record_call_def Let_def split: http_outcome.splits sum.splits if_splits)

lemma save_effect:
  assumes "save_chat_session ev w uid sid (PStr q) resp = (r, w1)"
  shows "calls w1 = calls w @ [MongoInsertChat (new_turn ev uid sid q resp)]
       \<and> chat_collection w1 =
           (if raises ev (MongoInsertChat (new_turn ev uid sid q resp)) = None
            then chat_collection w @ [new_turn ev uid sid q resp] else chat_collection w)
       \<and> (raises ev (MongoInsertChat (new_turn ev uid sid q resp)) = None \<longrightarrow> r = Inr uid)
       \<and> (\<forall>e. raises ev (MongoInsertChat (new_turn ev uid sid q resp)) = Some e \<longrightarrow> r = Inl e)"
  using assms
  by (auto simp: save_chat_session_def record_call_def Let_def new_turn_def split: option.splits)

lemma predict_steps_split:
  "predict_steps ev w q sid uid =
     (case steps_1_to_4 ev w q sid of
        (Inl e, w3) \<Rightarrow> (Inl e, w3)
      | (Inr (ctx, hist, extracted), w3) \<Rightarrow>
          (case save_chat_session ev w3 uid sid (PStr q) (lf_response extracted) of
             (Inl e, w4) \<Rightarrow> (Inl e, w4)
           | (Inr u, w4) \<Rightarrow> (Inr (predict_result ev extracted ctx hist), w4)))"
  unfolding predict_steps_def steps_1_to_4_def
  by (simp split: prod.splits sum.splits)

lemma steps_1_to_4_effect:
  assumes "steps_1_to_4 ev w q sid = (r, w3)"
  shows "chat_collection w3 = chat_collection w
       \<and> (\<exists>cs. calls w3 = calls w @ cs \<and> \<not> list_ex is_chat_insert cs
              \<and> ((\<exists>v. r = Inr v) \<longrightarrow> (\<exists>pre prompt. cs = pre @ [LLMChat prompt])))"
proof -
  obtain r1 w1 where s1: "retrieve_similar_chunks ev w q 5 = (r1, w1)" by (cases "retrieve_similar_chunks ev w q 5")
  from retrieve_effect [OF s1] obtain cs1 where
    e1: "calls w1 = calls w @ cs1" "\<not> list_ex is_chat_insert cs1" "chat_collection w1 = chat_collection w"
    by blast
  show ?thesis
  proof (cases r1)
    case (Inl e)
    with assms s1 e1 show ?thesis by (auto simp: steps_1_to_4_def)
  next
    case ctx: (Inr ctx)
    obtain r2 w2 where s2: "get_chat_history ev w1 sid = (r2, w2)" by (cases "get_chat_history ev w1 sid")
    from history_effect [OF s2] have
      e2: "calls w2 = calls w1 @ [MongoFindChats sid]" "chat_collection w2 = chat_collection w1"
      by simp_all
    show ?thesis
    proof (cases r2)
      case (Inl e)
      with assms s1 ctx s2 e1 e2 show ?thesis
        by (auto simp: steps_1_to_4_def is_chat_insert_def)
    next
      case hist: (Inr hist)
      show ?thesis
      proof (cases "CONTEXT_PROMPT_format hist ctx q")
        case (Inl e)
        with assms s1 ctx s2 hist e1 e2 show ?thesis
          by (auto simp: steps_1_to_4_def is_chat_insert_def)
      next
        case p: (Inr prompt)
        obtain r3 w3' where s3: "chat ev w2 prompt = (r3, w3')" by (cases "chat ev w2 prompt")
        from chat_effect [OF s3] have
          e3: "calls w3' = calls w2 @ [LLMChat prompt]" "chat_collection w3' = chat_collection w2"
          by simp_all
        have w3: "w3 = w3'"
          using assms s1 ctx s2 hist p s3
          by (auto simp: steps_1_to_4_def split: sum.splits)
        have c: "calls w3 = calls w @ (cs1 @ [MongoFindChats sid]) @ [LLMChat prompt]"
          by (simp add: w3 e3 e2 e1)
        have n: "\<not> list_ex is_chat_insert ((cs1 @ [MongoFindChats sid]) @ [LLMChat prompt])"
          using e1(2) by (simp add: is_chat_insert_def)
        from c n show ?thesis
          by (metis e1(3) e2(2) e3(2) w3)
      qed
    qed
  qed
qed

lemma predict_flow_steps_failed:
  assumes run: "predict_flow ev w q sid uid = (r, w')"
    and s: "steps_1_to_4 ev w q sid = (Inl x, w3)"
  shows "r = Inl (RAGError (InPredictFlow x)) \<and> w' = w3"
  using run s by (simp add: predict_flow_def predict_steps_split)

lemma predict_flow_steps_done:
  assumes run: "predict_flow ev w q sid uid = (r, w')"
    and s: "steps_1_to_4 ev w q sid = (Inr (ctx, hist, extracted), w3)"
    and sv: "save_chat_session ev w3 uid sid (PStr q) (lf_response extracted) = (r4, w4)"
  shows "w' = w4 \<and> r = (case r4 of Inl e \<Rightarrow> Inl (RAGError (InPredictFlow e))
                        | Inr u \<Rightarrow> Inr (predict_result ev extracted ctx hist))"
  using run s sv by (simp add: predict_flow_def predict_steps_split split: sum.splits)

text \<open>
  C3. Every run of \<open>predict_flow\<close> makes at most one insert into the chat collection. When
  one of the steps before persistence fails (retrieval, history fetch, prompt assembly,
  generation with the extraction of its fields), the run ends in an error, makes no
  insert call and leaves the chat collection as it was. When they all succeed, the
  insert is the last call of the run and comes directly after the generation call; the
  turn holds the user id, the session id, the query and the generated response, and it
  is in the collection exactly when the insert does not raise.
\<close>

theorem predict_flow_writes_at_most_one_turn:
  assumes run: "predict_flow ev w q sid uid = (r, w')"
  shows "\<exists>cs. calls w' = calls w @ cs
      \<and> length (filter is_chat_insert cs) \<le> 1
      \<and> (case fst (steps_1_to_4 ev w q sid) of
            Inl e \<Rightarrow>
              r = Inl (RAGError (InPredictFlow e))
              \<and> filter is_chat_insert cs = []
              \<and> chat_collection w' = chat_collection w
          | Inr (ctx, hist, extracted) \<Rightarrow>
              (\<exists>pre prompt.
                 cs = pre @ [LLMChat prompt,
                             MongoInsertChat (new_turn ev uid sid q (lf_response extracted))]
                 \<and> \<not> list_ex is_chat_insert pre)
              \<and> chat_collection w' =
                  (if raises ev (MongoInsertChat (new_turn ev uid sid q (lf_response extracted))) = None
                   then chat_collection w @ [new_turn ev uid sid q (lf_response extracted)]
                   else chat_collection w))"
proof -
  obtain r3 w3 where s: "steps_1_to_4 ev w q sid = (r3, w3)" by (cases "steps_1_to_4 ev w q sid")
  from steps_1_to_4_effect [OF s] have e1: "chat_collection w3 = chat_collection w"
    and ex_cs: "\<exists>cs. calls w3 = calls w @ cs \<and> \<not> list_ex is_chat_insert cs
              \<and> ((\<exists>v. r3 = Inr v) \<longrightarrow> (\<exists>pre prompt. cs = pre @ [LLMChat prompt]))"
    by (rule conjunct1, rule conjunct2)
  from ex_cs obtain cs where cs: "calls w3 = calls w @ cs \<and> \<not> list_ex is_chat_insert cs
              \<and> ((\<exists>v. r3 = Inr v) \<longrightarrow> (\<exists>pre prompt. cs = pre @ [LLMChat prompt]))" ..
  note e = e1 cs [THEN conjunct1] cs [THEN conjunct2, THEN conjunct1]
    cs [THEN conjunct2, THEN conjunct2]
  from e(3) have nofilter: "filter is_chat_insert cs = []"
    by (simp add: list_ex_iff filter_empty_conv)
  show ?thesis
  proof (cases r3)
    case (Inl x)
    from predict_flow_steps_failed [OF run s [unfolded Inl]] have rw: "r = Inl (RAGError (InPredictFlow x))" "w' = w3"
      by simp_all
    have st: "fst (steps_1_to_4 ev w q sid) = Inl x" by (simp add: s Inl)
    have g: "calls w' = calls w @ cs \<and> length (filter is_chat_insert cs) \<le> 1
        \<and> r = Inl (RAGError (InPredictFlow x)) \<and> filter is_chat_insert cs = []
        \<and> chat_collection w' = chat_collection w"
      using rw e(1,2) nofilter by simp
    show ?thesis
      unfolding st sum.case by (rule exI [of _ cs]) (rule g)
  next
    case (Inr v)
    obtain ctx hist extracted where v: "v = (ctx, hist, extracted)" by (cases v)
    define doc where "doc = new_turn ev uid sid q (lf_response extracted)"
    obtain r4 w4 where sv: "save_chat_session ev w3 uid sid (PStr q) (lf_response extracted) = (r4, w4)"
      by (cases "save_chat_session ev w3 uid sid (PStr q) (lf_response extracted)")
    from save_effect [OF sv] have
      se: "calls w4 = calls w3 @ [MongoInsertChat doc]"
          "chat_collection w4 =
             (if raises ev (MongoInsertChat doc) = None then chat_collection w3 @ [doc]
              else chat_collection w3)"
      unfolding doc_def by blast+
    from predict_flow_steps_done [OF run s [unfolded Inr v] sv] have w': "w' = w4" by simp
    from Inr have "\<exists>v. r3 = Inr v" by (rule exI)
    with e(4) have "\<exists>pre prompt. cs = pre @ [LLMChat prompt]" by (rule mp)
    then obtain pre prompt where pre: "cs = pre @ [LLMChat prompt]" by (elim exE)
    with e(3) have npre: "\<not> list_ex is_chat_insert pre" by simp
    have c: "calls w' = calls w @ (pre @ [LLMChat prompt, MongoInsertChat doc])"
      unfolding w' se(1) e(2) pre by simp
    have one: "length (filter is_chat_insert (pre @ [LLMChat prompt, MongoInsertChat doc])) \<le> 1"
      using npre by (simp add: list_ex_iff filter_empty_conv is_chat_insert_def)
    have coll: "chat_collection w' =
        (if raises ev (MongoInsertChat doc) = None then chat_collection w @ [doc] else chat_collection w)"
      unfolding w' se(2) e(1) by (rule refl)
    have st: "fst (steps_1_to_4 ev w q sid) = Inr (ctx, hist, extracted)" by (simp add: s Inr v)
    have ex: "\<exists>pre' prompt'. pre @ [LLMChat prompt, MongoInsertChat doc] = pre' @ [LLMChat prompt', MongoInsertChat doc]
        \<and> \<not> list_ex is_chat_insert pre'"
      by (rule exI [of _ pre], rule exI [of _ prompt]) (simp add: npre)
    have g: "calls w' = calls w @ (pre @ [LLMChat prompt, MongoInsertChat doc])
        \<and> length (filter is_chat_insert (pre @ [LLMChat prompt, MongoInsertChat doc])) \<le> 1
        \<and> (\<exists>pre' prompt'. pre @ [LLMChat prompt, MongoInsertChat doc] = pre' @ [LLMChat prompt', MongoInsertChat doc]
              \<and> \<not> list_ex is_chat_insert pre')
        \<and> chat_collection w' =
            (if raises ev (MongoInsertChat doc) = None then chat_collection w @ [doc] else chat_collection w)"
      using c one ex coll by (intro conjI)
    show ?thesis
      unfolding st sum.case prod.case
      by (rule exI [of _ "pre @ [LLMChat prompt, MongoInsertChat (new_turn ev uid sid q (lf_response extracted))]"])
        (rule g [unfolded doc_def])
  qed
qed

subsection \<open>Query pipeline: result and failure\<close>

lemma steps_1_to_4_Inr:
  assumes "steps_1_to_4 ev w q sid = (Inr (ctx, hist, extracted), w3)"
  shows "\<exists>w1. retrieve_similar_chunks ev w q 5 = (Inr ctx, w1)
             \<and> fst (get_chat_history ev w1 sid) = Inr hist"
  using assms unfolding steps_1_to_4_def
  by (simp split: prod.splits sum.splits)

lemma predict_flow_Inr:
  assumes "predict_flow ev w q sid uid = (Inr result, w')"
  shows "\<exists>ctx hist extracted w3.
           steps_1_to_4 ev w q sid = (Inr (ctx, hist, extracted), w3)
           \<and> save_chat_session ev w3 uid sid (PStr q) (lf_response extracted) = (Inr uid, w')
           \<and> result = predict_result ev extracted ctx hist"
  using assms unfolding predict_flow_def predict_steps_split save_chat_session_def
  by (simp add: Let_def split: prod.splits sum.splits option.splits)

text \<open>
  C1. A run of \<open>predict_flow\<close> that returns a result returns a dictionary with the keys
  \<open>response\<close>, \<open>model\<close>, \<open>input_tokens\<close>, \<open>output_tokens\<close>, \<open>chunks_retrieved\<close>,
  \<open>chat_history_length\<close> and \<open>timing_breakdown\<close>, in this order and no other.
  \<open>chunks_retrieved\<close> is the number of chunk texts the retrieval returned,
  \<open>chat_history_length\<close> the length of the history list that was fetched, and
  \<open>timing_breakdown\<close> is a dictionary with the keys \<open>retrieval\<close>, \<open>history\<close>, \<open>prompt\<close>,
  \<open>llm\<close>, \<open>save\<close>, \<open>total\<close>, each value a formatted number of seconds followed by \<open>s\<close>.
\<close>

theorem predict_flow_result_shape:
  assumes "predict_flow ev w q sid uid = (Inr result, w')"
  shows "\<exists>ctx hist (extracted :: llm_fields) tb w1.
           retrieve_similar_chunks ev w q 5 = (Inr ctx, w1)
         \<and> fst (get_chat_history ev w1 sid) = Inr hist
         \<and> result = PDict [(''response'', lf_response extracted),
                            (''model'', lf_model extracted),
                            (''input_tokens'', lf_input_tokens extracted),
                            (''output_tokens'', lf_output_tokens extracted),
                            (''chunks_retrieved'', PInt (int (length ctx))),
                            (''chat_history_length'', PInt (int (length hist))),
                            (''timing_breakdown'', PDict tb)]
         \<and> map fst tb = [''retrieval'', ''history'', ''prompt'', ''llm'', ''save'', ''total'']
         \<and> (\<forall>v \<in> set (map snd tb). \<exists>t. v = PStr (fmt3 ev t @ ''s''))"
proof -
  from predict_flow_Inr [OF assms] obtain ctx hist extracted w3 where
    s: "steps_1_to_4 ev w q sid = (Inr (ctx, hist, extracted), w3)" and
    r: "result = predict_result ev extracted ctx hist"
    by (elim exE conjE)
  from steps_1_to_4_Inr [OF s] obtain w1 where
    a: "retrieve_similar_chunks ev w q 5 = (Inr ctx, w1)" and
    b: "fst (get_chat_history ev w1 sid) = Inr hist"
    by (elim exE conjE)
  define tb where "tb = [(''retrieval'', seconds ev (clock ev 2 - clock ev 1)),
                      (''history'', seconds ev (clock ev 4 - clock ev 3)),
                      (''prompt'', seconds ev (clock ev 6 - clock ev 5)),
                      (''llm'', seconds ev (clock ev 8 - clock ev 7)),
                      (''save'', seconds ev (clock ev 10 - clock ev 9)),
                      (''total'', seconds ev (clock ev 11 - clock ev 0))]"
  have k: "map fst tb = [''retrieval'', ''history'', ''prompt'', ''llm'', ''save'', ''total'']"
    by (simp add: tb_def)
  have v: "\<forall>v \<in> set (map snd tb). \<exists>t. v = PStr (fmt3 ev t @ ''s'')"
    unfolding tb_def seconds_def by (simp del: append.simps) blast
  have d: "result = PDict [(''response'', lf_response extracted),
                            (''model'', lf_model extracted),
                            (''input_tokens'', lf_input_tokens extracted),
                            (''output_tokens'', lf_output_tokens extracted),
                            (''chunks_retrieved'', PInt (int (length ctx))),
                            (''chat_history_length'', PInt (int (length hist))),
                            (''timing_breakdown'', PDict tb)]"
    unfolding r predict_result_def tb_def by (rule refl)
  have "retrieve_similar_chunks ev w q 5 = (Inr ctx, w1)
         \<and> fst (get_chat_history ev w1 sid) = Inr hist
         \<and> result = PDict [(''response'', lf_response extracted),
                            (''model'', lf_model extracted),
                            (''input_tokens'', lf_input_tokens extracted),
                            (''output_tokens'', lf_output_tokens extracted),
                            (''chunks_retrieved'', PInt (int (length ctx))),
                            (''chat_history_length'', PInt (int (length hist))),
                            (''timing_breakdown'', PDict tb)]
         \<and> map fst tb = [''retrieval'', ''history'', ''prompt'', ''llm'', ''save'', ''total'']
         \<and> (\<forall>v \<in> set (map snd tb). \<exists>t. v = PStr (fmt3 ev t @ ''s''))"
    using a b d k v by (intro conjI)
  then show ?thesis
    by - ((rule exI)+, assumption)
qed

lemma ex_retrieve:
  assumes "qdrant_points w = qdrant_points ex_index"
    and "embed_text_api ev = embed_text_api ex_env" "score ev = score ex_env"
    and "raises ev = raises ex_env"
  shows "fst (retrieve_similar_chunks ev w ''hi'' 5) = Inr [PStr [], PStr ''gamma'', PStr ''alpha'']"
  using assms
  by (simp add: retrieve_similar_chunks_def embed_text_def search_def ex_env_def ex_index_def
      ex_world_def record_call_def hit_text_def Let_def)

lemma ex_extract:
  "extract_fields (PDict [(''model'', PStr ''gpt-3.5-turbo''),
       (''choices'', PList [PDict [(''message'', PDict [(''content'', PStr ''Hello'')])]]),
       (''usage'', PDict [(''prompt_tokens'', PInt 12), (''completion_tokens'', PInt 3)])])
   = Inr \<lparr> lf_model = PStr ''gpt-3.5-turbo'', lf_response = PStr ''Hello'',
           lf_input_tokens = PInt 12, lf_output_tokens = PInt 3 \<rparr>"
  by (simp add: extract_fields_def get_response_def get_response_fields_def bind_exn_def
      py_get_def py_getitem_def py_getitem0_def)

lemma ex_history:
  assumes "chat_collection w = []" and "raises ev = raises ex_env"
  shows "get_chat_history ev w ''S'' = (Inr [], record_call (MongoFindChats ''S'') w)"
  using assms
  by (simp add: get_chat_history_def ex_env_def last_chats_def find_session_def
      sort_timestamp_desc_def Let_def)

lemma ex_steps:
  assumes pts: "qdrant_points w = qdrant_points ex_index" and cc: "chat_collection w = []"
  shows "fst (steps_1_to_4 ex_env w ''hi'' ''S'') =
     Inr ([PStr [], PStr ''gamma'', PStr ''alpha''], [],
          \<lparr> lf_model = PStr ''gpt-3.5-turbo'', lf_response = PStr ''Hello'',
            lf_input_tokens = PInt 12, lf_output_tokens = PInt 3 \<rparr>)"
proof -
  obtain w1 where r: "retrieve_similar_chunks ex_env w ''hi'' 5
      = (Inr [PStr [], PStr ''gamma'', PStr ''alpha''], w1)"
    using ex_retrieve [OF pts refl refl refl]
    by (cases "retrieve_similar_chunks ex_env w ''hi'' 5") simp
  have cc1: "chat_collection w1 = []"
    using retrieve_effect [OF r] by (auto simp: cc)
  note h = ex_history [OF cc1 refl]
  obtain prompt where p: "CONTEXT_PROMPT_format [] [PStr [], PStr ''gamma'', PStr ''alpha''] ''hi'' = Inr prompt"
    by (simp add: CONTEXT_PROMPT_format_def PROMPT_TEMPLATE_def)
  have c: "fst (chat ex_env (record_call (MongoFindChats ''S'') w1) prompt) =
      Inr (PDict [(''model'', PStr ''gpt-3.5-turbo''),
       (''choices'', PList [PDict [(''message'', PDict [(''content'', PStr ''Hello'')])]]),
       (''usage'', PDict [(''prompt_tokens'', PInt 12), (''completion_tokens'', PInt 3)])])"
    by (simp add: chat_def ex_env_def Let_def)
  show ?thesis
    unfolding steps_1_to_4_def r h p prod.case sum.case
    using c ex_extract
    by (cases "chat ex_env (record_call (MongoFindChats ''S'') w1) prompt")
      (simp add: py_slice_check_def)
qed

lemma ex_steps_llm_down:
  assumes pts: "qdrant_points w = qdrant_points ex_index" and cc: "chat_collection w = []"
  shows "fst (steps_1_to_4 ex_env_llm_down w ''hi'' ''S'') = Inl (RAGError (NetworkErrorMsg ''down''))"
proof -
  have f: "embed_text_api ex_env_llm_down = embed_text_api ex_env"
    "score ex_env_llm_down = score ex_env" "raises ex_env_llm_down = raises ex_env"
    by (simp_all add: ex_env_llm_down_def)
  obtain w1 where r: "retrieve_similar_chunks ex_env_llm_down w ''hi'' 5
      = (Inr [PStr [], PStr ''gamma'', PStr ''alpha''], w1)"
    using ex_retrieve [OF pts f]
    by (cases "retrieve_similar_chunks ex_env_llm_down w ''hi'' 5") simp
  have cc1: "chat_collection w1 = []"
    using retrieve_effect [OF r] by (auto simp: cc)
  note h = ex_history [OF cc1 f(3)]
  obtain prompt where p: "CONTEXT_PROMPT_format [] [PStr [], PStr ''gamma'', PStr ''alpha''] ''hi'' = Inr prompt"
    by (simp add: CONTEXT_PROMPT_format_def PROMPT_TEMPLATE_def)
  have c: "fst (chat ex_env_llm_down (record_call (MongoFindChats ''S'') w1) prompt) =
      Inl (RAGError (NetworkErrorMsg ''down''))"
    by (simp add: chat_def ex_env_llm_down_def Let_def)
  show ?thesis
    unfolding steps_1_to_4_def r h p prod.case sum.case
    using c
    by (cases "chat ex_env_llm_down (record_call (MongoFindChats ''S'') w1) prompt") simp
qed

lemma predict_authorized:
  assumes auth: "header = Some (CLIENT_SECRET_KEY ev)"
    and init: "RetrieverService_init ev w = (Inr (), w1)"
    and flow: "predict_flow ev w1 (pr_query req) (pr_session_id req) (pr_user_id req) = (r, w2)"
  shows "predict ev w header req =
           (case r of Inl e \<Rightarrow> HTTPError 500 (PredictionFailed e) | Inr result \<Rightarrow> PredictOk result, w2)"
  using assms
  by (simp add: predict_def client_secret_dependency_def verify_client_secret_def split: sum.splits)

text \<open>
  C9. For an authorized request whose router object is built, the reply of \<open>/predict\<close> is
  one of two things. Either every step succeeded, the turn was saved, and the reply is
  the complete result; or a step failed (one of the steps before persistence, or the
  save), \<open>predict_flow\<close> raised exactly one RAGError that wraps the cause, and the
  endpoint answered with status 500 wrapping that error. No reply carries a result when
  a step has failed.
\<close>

theorem predict_failure_is_server_error:
  assumes auth: "header = Some (CLIENT_SECRET_KEY ev)"
    and init: "RetrieverService_init ev w = (Inr (), w1)"
  shows "(\<exists>ctx hist (extracted :: llm_fields) w3 w4.
            steps_1_to_4 ev w1 (pr_query req) (pr_session_id req) = (Inr (ctx, hist, extracted), w3)
          \<and> save_chat_session ev w3 (pr_user_id req) (pr_session_id req) (PStr (pr_query req))
                (lf_response extracted) = (Inr (pr_user_id req), w4)
          \<and> predict ev w header req = (PredictOk (predict_result ev extracted ctx hist), w4))
       \<or> (\<exists>cause.
            (fst (steps_1_to_4 ev w1 (pr_query req) (pr_session_id req)) = Inl cause
             \<or> (\<exists>ctx hist (extracted :: llm_fields) w3.
                   steps_1_to_4 ev w1 (pr_query req) (pr_session_id req) = (Inr (ctx, hist, extracted), w3)
                 \<and> fst (save_chat_session ev w3 (pr_user_id req) (pr_session_id req)
                          (PStr (pr_query req)) (lf_response extracted)) = Inl cause))
          \<and> fst (predict_flow ev w1 (pr_query req) (pr_session_id req) (pr_user_id req))
               = Inl (RAGError (InPredictFlow cause))
          \<and> fst (predict ev w header req)
               = HTTPError 500 (PredictionFailed (RAGError (InPredictFlow cause))))"
proof -
  define q where "q = pr_query req"
  define sid where "sid = pr_session_id req"
  define uid where "uid = pr_user_id req"
  obtain r w2 where flow: "predict_flow ev w1 q sid uid = (r, w2)"
    by (cases "predict_flow ev w1 q sid uid")
  note p = predict_authorized [OF auth init flow [unfolded q_def sid_def uid_def]]
  obtain r3 w3 where s: "steps_1_to_4 ev w1 q sid = (r3, w3)"
    by (cases "steps_1_to_4 ev w1 q sid")
  show ?thesis
  proof (cases r3)
    case (Inl cause)
    from predict_flow_steps_failed [OF flow s [unfolded Inl]]
    have r: "r = Inl (RAGError (InPredictFlow cause))" by simp
    have a: "fst (steps_1_to_4 ev w1 q sid) = Inl cause" by (simp add: s Inl)
    have b: "fst (predict_flow ev w1 q sid uid) = Inl (RAGError (InPredictFlow cause))"
      by (simp add: flow r)
    have c: "fst (predict ev w header req) = HTTPError 500 (PredictionFailed (RAGError (InPredictFlow cause)))"
      by (simp add: p r)
    from a b c show ?thesis
      unfolding q_def sid_def uid_def by blast
  next
    case (Inr v)
    obtain ctx hist extracted where v: "v = (ctx, hist, extracted)" by (cases v)
    note s' = s [unfolded Inr v]
    obtain r4 w4 where sv: "save_chat_session ev w3 uid sid (PStr q) (lf_response extracted) = (r4, w4)"
      by (cases "save_chat_session ev w3 uid sid (PStr q) (lf_response extracted)")
    from predict_flow_steps_done [OF flow s' sv]
    have w: "w2 = w4" and r: "r = (case r4 of Inl e \<Rightarrow> Inl (RAGError (InPredictFlow e))
                        | Inr u \<Rightarrow> Inr (predict_result ev extracted ctx hist))"
      by simp_all
    show ?thesis
    proof (cases r4)
      case (Inl cause)
      have a: "fst (save_chat_session ev w3 uid sid (PStr q) (lf_response extracted)) = Inl cause"
        by (simp add: sv Inl)
      have b: "fst (predict_flow ev w1 q sid uid) = Inl (RAGError (InPredictFlow cause))"
        by (simp add: flow r Inl)
      have c: "fst (predict ev w header req) = HTTPError 500 (PredictionFailed (RAGError (InPredictFlow cause)))"
        by (simp add: p r Inl)
      from s' a b c show ?thesis
        unfolding q_def sid_def uid_def by blast
    next
      case (Inr u)
      from save_effect [OF sv] Inr have u: "r4 = Inr uid"
        by (cases "raises ev (MongoInsertChat (new_turn ev uid sid q (lf_response extracted)))") auto
      have c: "predict ev w header req = (PredictOk (predict_result ev extracted ctx hist), w4)"
        by (simp add: p r u w)
      from s' sv [unfolded u] c show ?thesis
        unfolding q_def sid_def uid_def by blast
    qed
  qed
qed

theorem predict_flow_writes_at_most_one_turn_witness:
  "chat_collection (snd (predict_flow ex_env ex_index ''hi'' ''S'' ''u1''))
     = [new_turn ex_env ''u1'' ''S'' ''hi'' (PStr ''Hello'')]
   \<and> fst (predict_flow ex_env_llm_down ex_index ''hi'' ''S'' ''u1'')
       = Inl (RAGError (InPredictFlow (RAGError (NetworkErrorMsg ''down''))))
   \<and> chat_collection (snd (predict_flow ex_env_llm_down ex_index ''hi'' ''S'' ''u1'')) = []"
proof -
  have pts: "qdrant_points ex_index = qdrant_points ex_index" by (rule refl)
  have cc: "chat_collection ex_index = []" by (simp add: ex_index_def ex_world_def)
  have ins: "raises ex_env c = None" for c by (simp add: ex_env_def)
  obtain r w' where run: "predict_flow ex_env ex_index ''hi'' ''S'' ''u1'' = (r, w')"
    by (cases "predict_flow ex_env ex_index ''hi'' ''S'' ''u1''")
  from predict_flow_writes_at_most_one_turn [OF run]
  have a: "chat_collection w' = [new_turn ex_env ''u1'' ''S'' ''hi'' (PStr ''Hello'')]"
    unfolding ex_steps [OF pts cc] by (auto simp: ins cc)
  obtain r2 w2 where run2: "predict_flow ex_env_llm_down ex_index ''hi'' ''S'' ''u1'' = (r2, w2)"
    by (cases "predict_flow ex_env_llm_down ex_index ''hi'' ''S'' ''u1''")
  from predict_flow_writes_at_most_one_turn [OF run2]
  have b: "r2 = Inl (RAGError (InPredictFlow (RAGError (NetworkErrorMsg ''down''))))
      \<and> chat_collection w2 = []"
    unfolding ex_steps_llm_down [OF pts cc] by (auto simp: cc)
  from a b show ?thesis by (simp add: run run2)
qed

lemma ex_run:
  "\<exists>result w'. predict_flow ex_env ex_index ''hi'' ''S'' ''u1'' = (Inr result, w')"
proof -
  have pts: "qdrant_points ex_index = qdrant_points ex_index" by (rule refl)
  have cc: "chat_collection ex_index = []" by (simp add: ex_index_def ex_world_def)
  obtain w3 where s: "steps_1_to_4 ex_env ex_index ''hi'' ''S'' =
     (Inr ([PStr [], PStr ''gamma'', PStr ''alpha''], [],
          \<lparr> lf_model = PStr ''gpt-3.5-turbo'', lf_response = PStr ''Hello'',
            lf_input_tokens = PInt 12, lf_output_tokens = PInt 3 \<rparr>), w3)"
    using ex_steps [OF pts cc] by (cases "steps_1_to_4 ex_env ex_index ''hi'' ''S''") simp
  obtain w4 where sv: "save_chat_session ex_env w3 ''u1'' ''S'' (PStr ''hi'') (PStr ''Hello'') = (Inr ''u1'', w4)"
    by (simp add: save_chat_session_def ex_env_def Let_def)
  show ?thesis
    by (simp add: predict_flow_def predict_steps_split s sv)
qed

theorem predict_flow_result_shape_witness:
  "\<exists>result w' a b c d tb.
      predict_flow ex_env ex_index ''hi'' ''S'' ''u1'' = (Inr result, w')
    \<and> result = PDict [(''response'', a), (''model'', b), (''input_tokens'', c),
                       (''output_tokens'', d), (''chunks_retrieved'', PInt 3),
                       (''chat_history_length'', PInt 0), (''timing_breakdown'', PDict tb)]
    \<and> map fst tb = [''retrieval'', ''history'', ''prompt'', ''llm'', ''save'', ''total'']"
proof -
  from ex_run obtain result w' where
    run: "predict_flow ex_env ex_index ''hi'' ''S'' ''u1'' = (Inr result, w')"
    by (elim exE)
  from predict_flow_result_shape [OF run] obtain ctx hist and extracted :: llm_fields and tb w1 where
    r: "retrieve_similar_chunks ex_env ex_index ''hi'' 5 = (Inr ctx, w1)" and
    h: "fst (get_chat_history ex_env w1 ''S'') = Inr hist" and
    d: "result = PDict [(''response'', lf_response extracted),
                            (''model'', lf_model extracted),
                            (''input_tokens'', lf_input_tokens extracted),
                            (''output_tokens'', lf_output_tokens extracted),
                            (''chunks_retrieved'', PInt (int (length ctx))),
                            (''chat_history_length'', PInt (int (length hist))),
                            (''timing_breakdown'', PDict tb)]" and
    k: "map fst tb = [''retrieval'', ''history'', ''prompt'', ''llm'', ''save'', ''total'']"
    by (elim exE conjE)
  have ctx: "ctx = [PStr [], PStr ''gamma'', PStr ''alpha'']"
    using ex_retrieve [OF refl refl refl refl] r by simp
  have cc1: "chat_collection w1 = []"
    using retrieve_effect [OF r] by (auto simp: ex_index_def ex_world_def)
  have hist: "hist = []"
    using ex_history [OF cc1 refl] h by simp
  have d': "result = PDict [(''response'', lf_response extracted),
                            (''model'', lf_model extracted),
                            (''input_tokens'', lf_input_tokens extracted),
                            (''output_tokens'', lf_output_tokens extracted),
                            (''chunks_retrieved'', PInt 3),
                            (''chat_history_length'', PInt 0),
                            (''timing_breakdown'', PDict tb)]"
    unfolding d ctx hist by simp
  have "predict_flow ex_env ex_index ''hi'' ''S'' ''u1'' = (Inr result, w')
    \<and> result = PDict [(''response'', lf_response extracted), (''model'', lf_model extracted),
                       (''input_tokens'', lf_input_tokens extracted),
                       (''output_tokens'', lf_output_tokens extracted), (''chunks_retrieved'', PInt 3),
                       (''chat_history_length'', PInt 0), (''timing_breakdown'', PDict tb)]
    \<and> map fst tb = [''retrieval'', ''history'', ''prompt'', ''llm'', ''save'', ''total'']"
    using run d' k by (intro conjI)
  then show ?thesis
    by - ((rule exI)+, assumption)
qed

theorem predict_failure_is_server_error_witness:
  "Some ''secret'' = Some (CLIENT_SECRET_KEY ex_env_llm_down)
   \<and> RetrieverService_init ex_env_llm_down ex_index = (Inr (), record_call QdrantGetCollections ex_index)
   \<and> fst (predict ex_env_llm_down ex_index (Some ''secret'') ex_request)
       = HTTPError 500 (PredictionFailed (RAGError (InPredictFlow (RAGError (NetworkErrorMsg ''down'')))))"
proof -
  have auth: "Some ''secret'' = Some (CLIENT_SECRET_KEY ex_env_llm_down)"
    by (simp add: ex_env_llm_down_def ex_env_def)
  have init: "RetrieverService_init ex_env_llm_down ex_index = (Inr (), record_call QdrantGetCollections ex_index)"
    by (simp add: RetrieverService_init_def ex_env_llm_down_def ex_env_def ex_index_def ex_world_def Let_def)
  have pts: "qdrant_points (record_call QdrantGetCollections ex_index) = qdrant_points ex_index"
    and cc: "chat_collection (record_call QdrantGetCollections ex_index) = []"
    by (simp_all add: record_call_def ex_index_def ex_world_def)
  have q: "pr_query ex_request = ''hi''" "pr_session_id ex_request = ''S''" "pr_user_id ex_request = ''u1''"
    by (simp_all add: ex_request_def)
  note st = ex_steps_llm_down [OF pts cc]
  from predict_failure_is_server_error [OF auth init, of ex_request]
  have "fst (predict ex_env_llm_down ex_index (Some ''secret'') ex_request)
       = HTTPError 500 (PredictionFailed (RAGError (InPredictFlow (RAGError (NetworkErrorMsg ''down'')))))"
    unfolding q using st by (elim disjE exE conjE) simp_all
  with auth init show ?thesis by simp
qed

subsection \<open>Authentication gate and prompt assembly\<close>

text \<open>
  A request whose \<open>X-Client-Secret\<close> header is present and differs from the configured
  secret is answered with status 401 by both endpoints, and the world is untouched: no
  call to any service has been made.
\<close>

lemma auth_gate_mismatch:
  assumes "header = Some s" and "s \<noteq> CLIENT_SECRET_KEY ev"
  shows "predict ev w header req = (HTTPError 401 InvalidClientSecret, w)"
    and "train_endpoint ev w header user_id file = (HTTPError 401 InvalidClientSecret, w)"
  using assms
  by (simp_all add: predict_def train_endpoint_def client_secret_dependency_def verify_client_secret_def)

text \<open>
  A request without the header is answered with status 422; again no call is made.
\<close>

lemma auth_gate_missing:
  shows "predict ev w None req = (HTTPError 422 MissingHeaderField, w)"
    and "train_endpoint ev w None user_id file = (HTTPError 422 MissingHeaderField, w)"
  by (simp_all add: predict_def train_endpoint_def client_secret_dependency_def)

text \<open>
  C8. On a request without the \<open>X-Client-Secret\<close> header both endpoints answer with the
  validation status 422, not with the unauthorized status 401 that a wrong secret gets.
  The world is the same after the request as before it.
\<close>

theorem missing_client_secret_is_422:
  "predict ex_env ex_index None ex_request = (HTTPError 422 MissingHeaderField, ex_index)
   \<and> train_endpoint ex_env ex_index None ''u1'' ex_empty_upload
       = (HTTPError 422 MissingHeaderField, ex_index)
   \<and> predict ex_env ex_index (Some ''wrong'') ex_request = (HTTPError 401 InvalidClientSecret, ex_index)"
  by (simp add: predict_def train_endpoint_def client_secret_dependency_def verify_client_secret_def
      ex_env_def)

text \<open>
  The prompt for any history, context and query: the fixed text around the three fields,
  the history and the context each rendered by \<open>str\<close> of the list passed, the query as it
  is.
\<close>

lemma CONTEXT_PROMPT_format_eq:
  "CONTEXT_PROMPT_format chat_history context query =
     Inr ([CHR 0x0A] @ unlines instruction_lines @ unlines [''Here is the chat history:'']
          @ py_str (PList (map PStr chat_history))
          @ unlines ['''', '''', ''Here is the context:'']
          @ py_str (PList context)
          @ unlines ['''', '''', ''Here is the user's query:'']
          @ query
          @ unlines [''''])"
  by (simp add: CONTEXT_PROMPT_format_def PROMPT_TEMPLATE_def)

text \<open>
  C5. With the two retrieved chunk texts \<open>a\<newline>b\<close> (holding a line break) and \<open>c\<close>, the
  context block of the prompt is the display of the Python list: brackets, each text in
  quotes, the line break escaped, a comma and a space between the texts. It is not the
  two texts put one after the other as they are.
\<close>

theorem context_block_is_list_display:
  "CONTEXT_PROMPT_format [] [PStr (''a'' @ [CHR 0x0A] @ ''b''), PStr ''c''] ''q'' =
     Inr ([CHR 0x0A] @ unlines instruction_lines @ unlines [''Here is the chat history:'']
          @ ''[]''
          @ unlines ['''', '''', ''Here is the context:'']
          @ ([CHR ''['', CHR 0x27] @ ''a'' @ [CHR 0x5C] @ ''nb'' @ [CHR 0x27] @ '', ''
               @ [CHR 0x27] @ ''c'' @ [CHR 0x27] @ '']'')
          @ unlines ['''', '''', ''Here is the user's query:'']
          @ ''q''
          @ unlines [''''])
   \<and> CONTEXT_PROMPT_format [] [PStr (''a'' @ [CHR 0x0A] @ ''b''), PStr ''c''] ''q'' \<noteq>
     Inr ([CHR 0x0A] @ unlines instruction_lines @ unlines [''Here is the chat history:'']
          @ ''[]''
          @ unlines ['''', '''', ''Here is the context:'']
          @ (''a'' @ [CHR 0x0A] @ ''b'' @ ''c'')
          @ unlines ['''', '''', ''Here is the user's query:'']
          @ ''q''
          @ unlines [''''])"
  by (simp add: CONTEXT_PROMPT_format_eq repr_str_def repr_char_def py_isprintable_def Let_def)

text \<open>
  The template has exactly the three replacement fields it declares.
\<close>

lemma template_fields:
  "[n. Field n \<leftarrow> PROMPT_TEMPLATE] = INPUR_VARIABLES"
  by (simp add: PROMPT_TEMPLATE_def INPUR_VARIABLES_def)

end
